theory Spec2Isabelle
  imports Main "HOL-Library.Word" "HOL-Library.Sublist"
begin

section \<open>Data model shared by the components\<close>

text \<open>
  Machine integers of the plugin ABI: \<open>int32_t\<close> opcodes and indices, a word-sized
  \<open>intptr_t\<close> value. Native memory is a finite run of bytes indexed by address; a
  pointer is an address into it, or \<open>None\<close> for \<open>nullptr\<close>. An access outside the
  run is undefined behaviour in the source and is the result \<open>None\<close> of the operations
  below.
\<close>

type_synonym int32 = "32 word"
type_synonym intptr = "64 word"
type_synonym memory = "char list"
type_synonym pointer = "nat option"

definition NUL :: char where
  "NUL = CHR 0x00"

text \<open>
  Modelled from the spec: the payload variant is declared in \<open>communication.h\<close>, which
  is not among the sources; the spec lists its alternatives as empty, string, raw buffer
  and the wants-string sentinel. The default converter builds only \<open>nullptr\<close>,
  strings and \<open>WantsString\<close>.
\<close>

datatype EventPayload = Nullptr | String string | Buffer "char list" | WantsString

record EventResult =
  return_value :: intptr
  payload :: EventPayload

section \<open>The default data converter\<close>

text \<open>
  \<open>std::string(c_string)\<close> copies the bytes from the pointer up to, and without, the
  first zero byte. When no zero byte follows inside the memory the scan leaves it.
\<close>

definition c_string_at :: "memory \<Rightarrow> nat \<Rightarrow> string option" where
  "c_string_at mem p =
     (if NUL \<in> set (drop p mem) then Some (takeWhile (\<lambda>c. c \<noteq> NUL) (drop p mem)) else None)"

text \<open>\<open>DefaultDataConverter::read\<close>; opcode, index and value are ignored.\<close>

definition DefaultDataConverter_read ::
  "int32 \<Rightarrow> int32 \<Rightarrow> intptr \<Rightarrow> memory \<Rightarrow> pointer \<Rightarrow> EventPayload option" where
  "DefaultDataConverter_read opcode index val mem data =
     (case data of
        None \<Rightarrow> Some Nullptr
      | Some p \<Rightarrow>
          if p < length mem then
            (if mem ! p \<noteq> NUL then map_option String (c_string_at mem p)
             else Some WantsString)
          else None)"

text \<open>\<open>std::copy(s.begin(), s.end(), output)\<close>: one store per character, front to back.\<close>

fun std_copy :: "string \<Rightarrow> nat \<Rightarrow> memory \<Rightarrow> memory" where
  "std_copy [] out mem = mem"
| "std_copy (c # cs) out mem = std_copy cs (Suc out) (mem[out := c])"

text \<open>
  \<open>DefaultDataConverter::write\<close>: the visitor's string alternative copies the string and
  stores the terminator at \<open>output[s.size()]\<close>; the generic alternative does nothing.
  The source checks neither the pointer nor the room behind it.
\<close>

definition DefaultDataConverter_write ::
  "int32 \<Rightarrow> memory \<Rightarrow> pointer \<Rightarrow> EventResult \<Rightarrow> memory option" where
  "DefaultDataConverter_write opcode mem data response =
     (case payload response of
        String s \<Rightarrow>
          (case data of
             None \<Rightarrow> None
           | Some out \<Rightarrow>
               if out + length s < length mem
               then Some ((std_copy s out mem)[out + length s := NUL])
               else None)
      | _ \<Rightarrow> Some mem)"

section \<open>Errors\<close>

text \<open>
  Every \<open>throw\<close> of the sources raises a \<open>std::runtime_error\<close>; the constructors below
  stand for the throw sites and carry what their messages are built from.
  \<open>System_error\<close> stands for the errors of the socket and process libraries, which
  derive from \<open>std::exception\<close> as well.
\<close>

datatype error =
    Not_a_valid_dll string
  | Neither_x86_nor_x86_64 string "16 word"
  | Could_not_locate string
  | Plugin_does_not_exist string
  | System_error string

section \<open>Paths\<close>

text \<open>
  A path is its string. \<open>path_append p q\<close> is \<open>p / q\<close> of the filesystem library:
  an empty \<open>q\<close> changes nothing, and a separator is put between the two unless \<open>p\<close>
  is empty, \<open>p\<close> ends with one or \<open>q\<close> starts with one.
\<close>

type_synonym path = string

definition path_append :: "path \<Rightarrow> path \<Rightarrow> path" where
  "path_append p q =
     (if q = [] then p
      else if p = [] \<or> last p = CHR ''/'' \<or> hd q = CHR ''/'' then p @ q
      else p @ ''/'' @ q)"

section \<open>The binary format sniffer\<close>

type_synonym byte = "8 word"

datatype PluginArchitecture = vst_32 | vst_64

text \<open>
  An input file stream: the bytes of the file, the read position and whether the stream
  is still good. Opening a file that does not exist gives a stream that is not good; a
  stream that is not good ignores every further operation.
\<close>

record ifstream =
  contents :: "byte list"
  pos :: nat
  good :: bool

definition ifstream_open :: "byte list option \<Rightarrow> ifstream" where
  "ifstream_open file =
     (case file of
        None \<Rightarrow> \<lparr>contents = [], pos = 0, good = False\<rparr>
      | Some bs \<Rightarrow> \<lparr>contents = bs, pos = 0, good = True\<rparr>)"

definition seekg :: "nat \<Rightarrow> ifstream \<Rightarrow> ifstream" where
  "seekg p s = (if good s then s\<lparr>pos := p\<rparr> else s)"

text \<open>
  \<open>file.read(buffer, n)\<close>: the \<open>n\<close> bytes at the position when the file has them;
  otherwise the stream fails and the destination variable is not (wholly) written, which
  is the result \<open>None\<close>.
\<close>

definition read_bytes :: "nat \<Rightarrow> ifstream \<Rightarrow> byte list option \<times> ifstream" where
  "read_bytes n s =
     (if good s \<and> pos s + n \<le> length (contents s)
      then (Some (take n (drop (pos s) (contents s))), s\<lparr>pos := pos s + n\<rparr>)
      else (None, s\<lparr>good := False\<rparr>))"

text \<open>
  The variables are filled through \<open>reinterpret_cast<char*>\<close>, so their value is the
  bytes read in the byte order of the machine, little-endian on the x86 targets of the
  program.
\<close>

fun le_word :: "byte list \<Rightarrow> 'a::len word" where
  "le_word [] = 0"
| "le_word (b # bs) = ucast b + 256 * le_word bs"

definition expected_pe_signature :: "byte list" where
  "expected_pe_signature = [0x50, 0x45, 0x00, 0x00]"

text \<open>
  \<open>find_vst_architecture\<close>. The source does not test the stream: after a failed read it
  goes on with a variable that was never written. Such a run has no defined result and
  is \<open>None\<close> here. The signature is compared before the machine type is looked at, so a
  wrong signature is reported also when the machine type could not be read.
\<close>

definition find_vst_architecture ::
  "path \<Rightarrow> byte list option \<Rightarrow> (error + PluginArchitecture) option" where
  "find_vst_architecture plugin_path file =
     (let s0 = seekg 0x3c (ifstream_open file);
          (pe_signature_offset, s1) = read_bytes 4 s0
      in case pe_signature_offset of
           None \<Rightarrow> None
         | Some offset_bytes \<Rightarrow>
             let s2 = seekg (unat (le_word offset_bytes :: 32 word)) s1;
                 (pe_signature, s3) = read_bytes 4 s2;
                 (machine_type, s4) = read_bytes 2 s3
             in case pe_signature of
                  None \<Rightarrow> None
                | Some signature_bytes \<Rightarrow>
                    if (le_word signature_bytes :: 32 word) \<noteq> le_word expected_pe_signature
                    then Some (Inl (Not_a_valid_dll plugin_path))
                    else case machine_type of
                           None \<Rightarrow> None
                         | Some machine_bytes \<Rightarrow>
                             let m = (le_word machine_bytes :: 16 word)
                             in if m = 0x014c then Some (Inr vst_32)
                                else if m = 0x8664 \<or> m = 0x0000 then Some (Inr vst_64)
                                else Some (Inl (Neither_x86_nor_x86_64 plugin_path m)))"

text \<open>
  \<open>find_vst_host\<close>. The two runner names come from the generated \<open>config.h\<close> and are
  parameters here, as are the directory of the library itself, the existence test of the
  filesystem and the lookup in the search path, which answers the empty path when
  nothing is found.
\<close>

record host_lookup =
  yabridge_wine_host_name :: string
  yabridge_wine_host_name_32bit :: string
  this_file_directory :: path
  exists_host :: "path \<Rightarrow> bool"
  search_path :: "string \<Rightarrow> path"

definition host_name_for :: "host_lookup \<Rightarrow> PluginArchitecture \<Rightarrow> string" where
  "host_name_for env plugin_arch =
     (if plugin_arch = vst_32 then yabridge_wine_host_name_32bit env
      else yabridge_wine_host_name env)"

definition find_vst_host :: "host_lookup \<Rightarrow> PluginArchitecture \<Rightarrow> error + path" where
  "find_vst_host env plugin_arch =
     (let host_name = host_name_for env plugin_arch;
          host_path = path_append (this_file_directory env) host_name
      in if exists_host env host_path then Inr host_path
         else let vst_host_path = search_path env host_name
              in if vst_host_path = [] then Inl (Could_not_locate host_name)
                 else Inr vst_host_path)"

text \<open>
  A smallest image with a given signature and machine type: the offset field at \<open>0x3c\<close>
  points right behind itself.
\<close>

definition pe_image :: "byte list \<Rightarrow> byte \<Rightarrow> byte \<Rightarrow> byte list" where
  "pe_image signature m0 m1 = replicate 0x3c 0 @ [0x40, 0, 0, 0] @ signature @ [m0, m1]"

section \<open>Endpoint names\<close>

text \<open>
  The filesystem is the set of the paths that exist. \<open>filename\<close>, \<open>extension\<close>,
  \<open>replace_extension\<close> and \<open>parent_path\<close> are the path decompositions of the
  filesystem library on the strings.
\<close>

type_synonym filesystem = "path set"

definition filename :: "path \<Rightarrow> string" where
  "filename p =
     (if p \<noteq> [] \<and> last p = CHR ''/'' then ''.''
      else rev (takeWhile (\<lambda>c. c \<noteq> CHR ''/'') (rev p)))"

definition extension :: "path \<Rightarrow> string" where
  "extension p =
     (let n = filename p
      in if n = ''.'' \<or> n = ''..'' \<or> CHR ''.'' \<notin> set n then []
         else CHR ''.'' # rev (takeWhile (\<lambda>c. c \<noteq> CHR ''.'') (rev n)))"

definition replace_extension :: "path \<Rightarrow> string \<Rightarrow> path" where
  "replace_extension p new_extension =
     (let stem = take (length p - length (extension p)) p
      in if new_extension = [] then stem
         else if hd new_extension = CHR ''.'' then stem @ new_extension
         else stem @ ''.'' @ new_extension)"

text \<open>
  \<open>parent_path\<close> takes the last element and the separators before it away; what is
  left of a path directly under the root is the root, and the root itself has no parent.
\<close>

definition parent_path :: "path \<Rightarrow> path" where
  "parent_path p =
     (let r = dropWhile (\<lambda>c. c \<noteq> CHR ''/'') (rev p);
          d = dropWhile (\<lambda>c. c = CHR ''/'') r
      in if d \<noteq> [] then rev d
         else if r \<noteq> [] \<and> r \<noteq> rev p then ''/''
         else [])"

text \<open>
  \<open>create_directories p\<close> makes \<open>p\<close> and every directory above it exist: the
  prefixes of \<open>p\<close> that end where a separator follows, and \<open>p\<close> itself.
\<close>

definition create_directories :: "path \<Rightarrow> filesystem \<Rightarrow> filesystem" where
  "create_directories p fs =
     fs \<union> {q \<in> set (prefixes p). q \<noteq> [] \<and> (q = p \<or> p ! length q = CHR ''/'')}"

definition alphanumeric_characters :: string where
  "alphanumeric_characters =
     ''0123456789ABCDEFGHIJKLMNOPQRSTUVWXYZabcdefghijklmnopqrstuvwxyz''"

text \<open>
  The random number engine is a state with a step that answers the next raw number.
  \<open>uniform_int step g b\<close> is a distribution over \<open>0 .. b\<close> drawing from it; of the
  library's distribution only its range is kept.
\<close>

type_synonym 'g engine = "'g \<Rightarrow> nat \<times> 'g"

definition uniform_int :: "'g engine \<Rightarrow> 'g \<Rightarrow> nat \<Rightarrow> nat \<times> 'g" where
  "uniform_int step g b = (case step g of (r, g') \<Rightarrow> (r mod (b + 1), g'))"

text \<open>
  \<open>std::sample\<close> over forward iterators is selection sampling: it walks the population
  once and takes the element at hand when a number drawn from \<open>0 .. unsampled - 1\<close>
  is below the count of elements still wanted, so the sample keeps the order of the
  population. The count asked for is capped by the size of the population first.
\<close>

fun sample_loop :: "'g engine \<Rightarrow> string \<Rightarrow> nat \<Rightarrow> 'g \<Rightarrow> string \<times> 'g" where
  "sample_loop step [] n g = ([], g)"
| "sample_loop step (c # cs) n g =
     (if n = 0 then ([], g)
      else case uniform_int step g (length cs) of
             (d, g') \<Rightarrow>
               if d < n
               then (case sample_loop step cs (n - 1) g' of (out, g'') \<Rightarrow> (c # out, g''))
               else sample_loop step cs n g')"

definition std_sample :: "'g engine \<Rightarrow> string \<Rightarrow> nat \<Rightarrow> 'g \<Rightarrow> string \<times> 'g" where
  "std_sample step population n g = sample_loop step population (min n (length population)) g"

text \<open>
  The identifier of both generators: eight characters sampled from the range
  \<open>alphanumeric_characters\<close> up to \<open>alphanumeric_characters + strlen(...) - 1\<close>, which
  leaves the last character out.
\<close>

definition random_id :: "'g engine \<Rightarrow> 'g \<Rightarrow> string \<times> 'g" where
  "random_id step g =
     std_sample step (take (length alphanumeric_characters - 1) alphanumeric_characters) 8 g"

text \<open>
  The \<open>do ... while (fs::exists(candidate_endpoint))\<close> loop of both generators;
  \<open>candidate\<close> builds the path from the identifier. The loop draws again as long as
  the candidate exists, and nothing bounds the number of rounds.
\<close>

partial_function (option) endpoint_loop ::
  "'g engine \<Rightarrow> (string \<Rightarrow> path) \<Rightarrow> filesystem \<Rightarrow> 'g \<Rightarrow> (path \<times> 'g) option" where
  "endpoint_loop step candidate fs g =
     (case random_id step g of
        (rid, g') \<Rightarrow>
          if candidate rid \<in> fs then endpoint_loop step candidate fs g'
          else Some (candidate rid, g'))"

declare endpoint_loop.simps [code]


text \<open>
  \<open>find_vst_plugin\<close> of the host bridge: the library's own location with the extension
  \<open>.dll\<close>, resolved to its canonical path when it exists.
\<close>

definition find_vst_plugin :: "path \<Rightarrow> (path \<Rightarrow> path) \<Rightarrow> filesystem \<Rightarrow> error + path" where
  "find_vst_plugin this_line_location canonical fs =
     (let plugin_path = replace_extension this_line_location ''.dll''
      in if plugin_path \<notin> fs then Inl (Plugin_does_not_exist plugin_path)
         else Inr (canonical plugin_path))"

text \<open>
  \<open>generate_endpoint_name\<close> of the host bridge: the endpoint lies in the directory
  \<open>yabridge\<close> under the temporary directory, which is created after the loop. The
  result is the path and the filesystem as the function leaves it.
\<close>

definition generate_endpoint_name ::
  "'g engine \<Rightarrow> path \<Rightarrow> path \<Rightarrow> (path \<Rightarrow> path) \<Rightarrow> filesystem \<Rightarrow> 'g \<Rightarrow>
     (error + path \<times> filesystem \<times> 'g) option" where
  "generate_endpoint_name step temp_directory_path this_line_location canonical fs g =
     (case find_vst_plugin this_line_location canonical fs of
        Inl e \<Rightarrow> Some (Inl e)
      | Inr plugin \<Rightarrow>
          let plugin_name = replace_extension (filename plugin) []
          in case endpoint_loop step
                    (\<lambda>rid. path_append (path_append temp_directory_path ''yabridge'')
                                       (plugin_name @ ''-'' @ rid @ ''.sock'')) fs g of
               None \<Rightarrow> None
             | Some (candidate_endpoint, g') \<Rightarrow>
                 Some (Inr (candidate_endpoint,
                            create_directories (parent_path candidate_endpoint) fs, g')))"


text \<open>A random number engine to run the generators with: a counter.\<close>

definition sample_engine :: "nat engine" where
  "sample_engine = (\<lambda>n. (n * 7 + 3, Suc n))"

section \<open>The host bridge\<close>

text \<open>
  A call that waits on the peer process may return, throw or never come back; and the
  whole process is aborted when \<open>std::terminate\<close> is called.
\<close>

datatype 'a outcome = Returns 'a | Throws error | Blocks | Aborts

definition bind_outcome :: "'a outcome \<Rightarrow> ('a \<Rightarrow> 'b outcome) \<Rightarrow> 'b outcome" where
  "bind_outcome m f =
     (case m of Returns x \<Rightarrow> f x | Throws e \<Rightarrow> Throws e | Blocks \<Rightarrow> Blocks | Aborts \<Rightarrow> Aborts)"

text \<open>
  Modelled from the spec: the plugin descriptor \<open>AEffect\<close> is declared in the VST
  header, which is not among the sources. It holds the five function-pointer slots, the
  spare pointer \<open>ptr3\<close> in which the bridge keeps its own address, and plain data (the
  identification tag, counts and flags), gathered in \<open>info\<close>. A slot holds one of the
  proxy functions of the bridge or nothing.
\<close>

datatype proxy =
  dispatch_proxy | process_proxy | setParameter_proxy | getParameter_proxy
  | process_replacing_proxy

record 'd AEffect =
  dispatcher :: "proxy option"
  process :: "proxy option"
  setParameter :: "proxy option"
  getParameter :: "proxy option"
  processReplacing :: "proxy option"
  ptr3 :: "nat option"
  info :: 'd

text \<open>
  The members of \<open>HostBridge\<close>. A socket is not connected or holds the connection it
  accepted; \<open>vst_host\<close> is the child process with the runner, the plugin and the
  endpoint it was started with; \<open>removeme\<close> is the thread object of the callback
  loop, true once a thread has been started in it. The loop never ends and nothing in
  the sources joins or detaches the thread, so that from then on the object stands for a
  running thread.
\<close>

record 'd HostBridge =
  socket_endpoint :: path
  host_vst_dispatch :: "nat option"
  vst_host_callback :: "nat option"
  vst_host_aeffect :: "nat option"
  host_callback_function :: nat
  vst_host :: "path \<times> path \<times> path"
  plugin :: "'d AEffect"
  removeme :: bool

text \<open>
  What the constructor does to the world outside the object is recorded in order.
\<close>

datatype channel = Host_vst_dispatch | Vst_host_callback | Vst_host_aeffect

datatype effect =
    Accepted channel nat
  | Pointers_installed
  | Callback_loop_started
  | Descriptor_read

text \<open>
  The world the constructor runs in: where the library lies, the filesystem, the state of
  the random number engine, the connections that arrive at the acceptor in their order
  (each a connection or the error the accept fails with), and the record of effects.
\<close>

record 'g world =
  library_location :: path
  canonical_path :: "path \<Rightarrow> path"
  temp_dir :: path
  search_path_of :: "string \<Rightarrow> path"
  files :: filesystem
  engine_state :: 'g
  incoming :: "(error + nat) list"
  trace :: "effect list"

definition yabridge_wine_host_name_const :: string where
  "yabridge_wine_host_name_const = ''yabridge-host.exe''"

text \<open>\<open>find_wine_vst_host\<close>: beside the library first, then in the search path.\<close>

definition find_wine_vst_host :: "'g world \<Rightarrow> error + path" where
  "find_wine_vst_host w =
     (let host_path = path_append (parent_path (canonical_path w (library_location w)))
                        yabridge_wine_host_name_const
      in if host_path \<in> files w then Inr host_path
         else let vst_host_path = search_path_of w yabridge_wine_host_name_const
              in if vst_host_path = [] then
                   Inl (Could_not_locate yabridge_wine_host_name_const)
                 else Inr vst_host_path)"

text \<open>
  \<open>socket_acceptor.accept(socket)\<close> waits for the next connection and binds it to the
  socket; with no connection to come it waits for ever.
\<close>

definition accept :: "channel \<Rightarrow> 'g world \<Rightarrow> (nat \<times> 'g world) outcome" where
  "accept ch w =
     (case incoming w of
        [] \<Rightarrow> Blocks
      | Inl e # rest \<Rightarrow> Throws e
      | Inr c # rest \<Rightarrow> Returns (c, w\<lparr>incoming := rest, trace := trace w @ [Accepted ch c]\<rparr>))"

definition of_sum :: "error + 'a \<Rightarrow> 'a outcome" where
  "of_sum r = (case r of Inl e \<Rightarrow> Throws e | Inr x \<Rightarrow> Returns x)"

text \<open>
  The members of the bridge are destroyed when the bridge is deleted and when an
  exception leaves the body of its constructor. Destroying the thread object while it
  stands for a running thread calls \<open>std::terminate\<close>.
\<close>

definition destroy_members :: "'d HostBridge \<Rightarrow> 'a outcome \<Rightarrow> 'a outcome" where
  "destroy_members b continue = (if removeme b then Aborts else continue)"

definition in_constructor :: "'d HostBridge \<Rightarrow> 'a outcome \<Rightarrow> 'a outcome" where
  "in_constructor b m =
     (case m of Throws e \<Rightarrow> destroy_members b (Throws e) | _ \<Rightarrow> m)"

text \<open>
  The member initialisers of the constructor: the endpoint name, the acceptor bound to
  it, the sockets, and the child process, whose two paths are looked up while its
  arguments are evaluated. The language leaves the order of the two lookups open; the
  plugin has been found once by the endpoint generator already, so that only the lookup
  of the runner can fail here. Binding the acceptor creates the endpoint in the
  filesystem. The launch of the child and the environment it is given are not part of
  the model. \<open>plugin0\<close> is the descriptor member as it is before the body runs.
\<close>

definition HostBridge_initializers ::
  "'g engine \<Rightarrow> nat \<Rightarrow> 'd AEffect \<Rightarrow> 'g world \<Rightarrow> ('d HostBridge \<times> 'g world) outcome" where
  "HostBridge_initializers step host_callback plugin0 w =
     (case generate_endpoint_name step (temp_dir w) (library_location w) (canonical_path w)
             (files w) (engine_state w) of
        None \<Rightarrow> Blocks
      | Some (Inl e) \<Rightarrow> Throws e
      | Some (Inr (endpoint, fs', g')) \<Rightarrow>
          let w1 = w\<lparr>files := insert endpoint fs', engine_state := g'\<rparr>
          in bind_outcome (of_sum (find_wine_vst_host w1)) (\<lambda>host.
             bind_outcome (of_sum (find_vst_plugin (library_location w1) (canonical_path w1)
                                     (files w1))) (\<lambda>vst.
             Returns
               (\<lparr>socket_endpoint = endpoint,
                 host_vst_dispatch = None, vst_host_callback = None, vst_host_aeffect = None,
                 host_callback_function = host_callback,
                 vst_host = (host, vst, endpoint),
                 plugin = plugin0, removeme = False\<rparr>, w1))))"

text \<open>
  The body of the constructor, statement by statement. Its first part runs up to the
  read of the descriptor: the three accepts, the pointers of the descriptor and the
  thread of the callback loop. It hands on the connection of the \<open>vst_host_aeffect\<close>
  socket and the bridge and the world as they are when the read is entered. \<open>this\<close>
  is the address of the object under construction.
\<close>

definition HostBridge_before_read ::
  "nat \<Rightarrow> 'd HostBridge \<Rightarrow> 'g world \<Rightarrow> (nat \<times> 'd HostBridge \<times> 'g world) outcome" where
  "HostBridge_before_read this b w =
     bind_outcome (in_constructor b (accept Host_vst_dispatch w)) (\<lambda>(c1, w1).
     bind_outcome (in_constructor b (accept Vst_host_callback w1)) (\<lambda>(c2, w2).
     bind_outcome (in_constructor b (accept Vst_host_aeffect w2)) (\<lambda>(c3, w3).
       let b1 = b\<lparr>host_vst_dispatch := Some c1, vst_host_callback := Some c2,
                   vst_host_aeffect := Some c3\<rparr>;
           b2 = b1\<lparr>plugin := (plugin b1)
                   \<lparr>ptr3 := Some this,
                    dispatcher := Some dispatch_proxy,
                    process := Some process_proxy,
                    setParameter := Some setParameter_proxy,
                    getParameter := Some getParameter_proxy,
                    processReplacing := Some process_replacing_proxy\<rparr>\<rparr>;
           w4 = w3\<lparr>trace := trace w3 @ [Pointers_installed]\<rparr>;
           b3 = b2\<lparr>removeme := True\<rparr>;
           w5 = w4\<lparr>trace := trace w4 @ [Callback_loop_started]\<rparr>
       in Returns (c3, b3, w5))))"

text \<open>
  The last statement reads the descriptor from the \<open>vst_host_aeffect\<close> socket, with
  the descriptor as it stands as the object to fill, and assigns the result to
  \<open>plugin\<close>. \<open>read_object\<close> lives in \<open>communication.h\<close> and is the parameter
  \<open>reader\<close>; when it does not return, neither does the constructor, and when it
  throws, the exception leaves the constructor with the thread of the callback loop
  running.
\<close>

definition HostBridge_body ::
  "(nat \<Rightarrow> 'd AEffect \<Rightarrow> 'd AEffect outcome) \<Rightarrow> nat \<Rightarrow> 'd HostBridge \<Rightarrow> 'g world \<Rightarrow>
     ('d HostBridge \<times> 'g world) outcome" where
  "HostBridge_body reader this b w =
     bind_outcome (HostBridge_before_read this b w) (\<lambda>(c3, b3, w5).
     bind_outcome (in_constructor b3 (reader c3 (plugin b3))) (\<lambda>p.
       Returns (b3\<lparr>plugin := p\<rparr>, w5\<lparr>trace := trace w5 @ [Descriptor_read]\<rparr>)))"

definition HostBridge_ctor ::
  "'g engine \<Rightarrow> (nat \<Rightarrow> 'd AEffect \<Rightarrow> 'd AEffect outcome) \<Rightarrow> nat \<Rightarrow> nat \<Rightarrow> 'd AEffect \<Rightarrow>
     'g world \<Rightarrow> ('d HostBridge \<times> 'g world) outcome" where
  "HostBridge_ctor step reader this host_callback plugin0 w =
     bind_outcome (HostBridge_initializers step host_callback plugin0 w)
       (\<lambda>(b, w1). HostBridge_body reader this b w1)"

text \<open>
  Modelled from the spec: \<open>read_object\<close> is defined in \<open>communication.h\<close>, which is not
  among the sources. By the spec the descriptor is filled in by this read while the
  function-pointer slots stay as installed, and the source announces that the struct is
  filled with data from the plugin: the read replaces the plain data of the object it is
  given and nothing else. \<open>receive\<close> is what the connection delivers.
\<close>

definition read_object :: "(nat \<Rightarrow> 'd outcome) \<Rightarrow> nat \<Rightarrow> 'd AEffect \<Rightarrow> 'd AEffect outcome" where
  "read_object receive c object =
     bind_outcome (receive c) (\<lambda>d. Returns (object\<lparr>info := d\<rparr>))"

subsection \<open>Forwarded calls\<close>

text \<open>
  \<open>effClose\<close> comes from the VST header; the entry point's comment gives its value.
\<close>

definition effClose :: int32 where
  "effClose = 1"

text \<open>
  \<open>HostBridge::dispatch\<close>. \<open>send_event\<close> lives in \<open>communication.h\<close> and is a
  parameter: given the socket and the five arguments it takes the state of the traffic
  with the peer to a return value and a new state. \<open>delete this\<close> destroys the members
  of the bridge and ends the object, which is the bridge \<open>None\<close> in the result; the
  \<open>return 0\<close> behind it is reached only when that did not abort the process.
\<close>

definition dispatch ::
  "(nat option \<Rightarrow> int32 \<Rightarrow> int32 \<Rightarrow> intptr \<Rightarrow> pointer \<Rightarrow> 'f \<Rightarrow> 's \<Rightarrow> intptr \<times> 's) \<Rightarrow>
   'd HostBridge \<Rightarrow> int32 \<Rightarrow> int32 \<Rightarrow> intptr \<Rightarrow> pointer \<Rightarrow> 'f \<Rightarrow> 's \<Rightarrow>
     (intptr \<times> 'd HostBridge option \<times> 's) outcome" where
  "dispatch send_event b opcode index val data option s =
     (if opcode = effClose then destroy_members b (Returns (0, None, s))
      else case send_event (host_vst_dispatch b) opcode index val data option s of
             (r, s') \<Rightarrow> Returns (r, Some b, s'))"

text \<open>The other four methods are empty in the source; \<open>get_parameter\<close> answers zero.\<close>

datatype 'f call =
    Dispatch int32 int32 intptr pointer 'f
  | Process
  | Process_replacing
  | Set_parameter
  | Get_parameter

definition handle_call ::
  "(nat option \<Rightarrow> int32 \<Rightarrow> int32 \<Rightarrow> intptr \<Rightarrow> pointer \<Rightarrow> 'f \<Rightarrow> 's \<Rightarrow> intptr \<times> 's) \<Rightarrow>
   'd HostBridge \<Rightarrow> 'f call \<Rightarrow> 's \<Rightarrow> ('d HostBridge option \<times> 's) outcome" where
  "handle_call send_event b c s =
     (case c of
        Dispatch opcode index val data option \<Rightarrow>
          bind_outcome (dispatch send_event b opcode index val data option s)
            (\<lambda>(r, b', s'). Returns (b', s'))
      | _ \<Rightarrow> Returns (Some b, s))"

text \<open>A run of calls on the bridge; it ends with the call that closes it.\<close>

fun handle_calls ::
  "(nat option \<Rightarrow> int32 \<Rightarrow> int32 \<Rightarrow> intptr \<Rightarrow> pointer \<Rightarrow> 'f \<Rightarrow> 's \<Rightarrow> intptr \<times> 's) \<Rightarrow>
   'd HostBridge \<Rightarrow> 'f call list \<Rightarrow> 's \<Rightarrow> ('d HostBridge option \<times> 's) outcome" where
  "handle_calls send_event b [] s = Returns (Some b, s)"
| "handle_calls send_event b (c # cs) s =
     bind_outcome (handle_call send_event b c s)
       (\<lambda>(b', s'). case b' of None \<Rightarrow> Returns (None, s')
                   | Some b'' \<Rightarrow> handle_calls send_event b'' cs s')"

subsection \<open>The construction beside the callback thread and the plugin\<close>

text \<open>
  While the constructor runs, two more parties act: the thread of the callback loop,
  once started, and the runner process with the plugin at the other end of the sockets.
  The state below holds the main thread's place in the body of the constructor, the
  bridge, the connections arriving at the acceptor, the frames under way on the callback
  socket in both directions and on the descriptor socket, and the state of the plugin.
\<close>

datatype place =
    Accepting channel
  | Installing_pointers
  | Starting_callback_loop
  | Reading_descriptor
  | Constructed

record ('d, 'e, 'r) construction =
  main_thread :: place
  host_bridge :: "'d HostBridge"
  arriving :: "(error + nat) list"
  callback_requests :: "'e list"
  callback_responses :: "'r list"
  descriptor_frames :: "'d list"
  plugin_callbacks :: "'e list"
  plugin_waiting :: bool
  plugin_answers :: "'r list"
  plugin_descriptor :: "'d option"

text \<open>
  One statement of the body of the constructor, on the main thread. An accept needs a
  connection to have arrived and the read needs a frame on the descriptor socket;
  without, the thread waits. The read fills the plain data of the descriptor, as
  \<open>read_object\<close> does.
\<close>

definition main_step ::
  "nat \<Rightarrow> ('d, 'e, 'r) construction \<Rightarrow> ('d, 'e, 'r) construction option" where
  "main_step this s =
     (case main_thread s of
        Accepting ch \<Rightarrow>
          (case arriving s of
             Inr c # rest \<Rightarrow>
               (case ch of
                  Host_vst_dispatch \<Rightarrow>
                    Some (s\<lparr>host_bridge := (host_bridge s)\<lparr>host_vst_dispatch := Some c\<rparr>,
                            arriving := rest, main_thread := Accepting Vst_host_callback\<rparr>)
                | Vst_host_callback \<Rightarrow>
                    Some (s\<lparr>host_bridge := (host_bridge s)\<lparr>vst_host_callback := Some c\<rparr>,
                            arriving := rest, main_thread := Accepting Vst_host_aeffect\<rparr>)
                | Vst_host_aeffect \<Rightarrow>
                    Some (s\<lparr>host_bridge := (host_bridge s)\<lparr>vst_host_aeffect := Some c\<rparr>,
                            arriving := rest, main_thread := Installing_pointers\<rparr>))
           | _ \<Rightarrow> None)
      | Installing_pointers \<Rightarrow>
          Some (s\<lparr>host_bridge := (host_bridge s)\<lparr>plugin := (plugin (host_bridge s))
                          \<lparr>ptr3 := Some this,
                           dispatcher := Some dispatch_proxy,
                           process := Some process_proxy,
                           setParameter := Some setParameter_proxy,
                           getParameter := Some getParameter_proxy,
                           processReplacing := Some process_replacing_proxy\<rparr>\<rparr>,
                  main_thread := Starting_callback_loop\<rparr>)
      | Starting_callback_loop \<Rightarrow>
          Some (s\<lparr>host_bridge := (host_bridge s)\<lparr>removeme := True\<rparr>, main_thread := Reading_descriptor\<rparr>)
      | Reading_descriptor \<Rightarrow>
          (case descriptor_frames s of
             d # ds \<Rightarrow>
               Some (s\<lparr>host_bridge := (host_bridge s)\<lparr>plugin := (plugin (host_bridge s))\<lparr>info := d\<rparr>\<rparr>,
                       descriptor_frames := ds, main_thread := Constructed\<rparr>)
           | [] \<Rightarrow> None)
      | Constructed \<Rightarrow> None)"

text \<open>
  One round of \<open>host_callback_loop\<close>, on the thread \<open>removeme\<close>: the call
  \<open>passthrough_event(vst_host_callback, &plugin, host_callback_function)\<close>.
  \<open>passthrough_event\<close> lives in \<open>communication.h\<close>; by the spec it waits for a frame
  on the socket, calls the host's callback with it and writes the result back as the
  response. What the response is, is the parameter \<open>passthrough_event\<close>.
\<close>

definition host_callback_loop_step ::
  "('d AEffect \<Rightarrow> nat \<Rightarrow> 'e \<Rightarrow> 'r) \<Rightarrow> ('d, 'e, 'r) construction \<Rightarrow>
     ('d, 'e, 'r) construction option" where
  "host_callback_loop_step passthrough_event s =
     (if removeme (host_bridge s) \<and> vst_host_callback (host_bridge s) \<noteq> None then
        (case callback_requests s of
           e # es \<Rightarrow>
             Some (s\<lparr>callback_requests := es,
                     callback_responses := callback_responses s @
                       [passthrough_event (plugin (host_bridge s))
                          (host_callback_function (host_bridge s)) e]\<rparr>)
         | [] \<Rightarrow> None)
      else None)"

text \<open>
  Modelled from the spec: the runner process is not among the sources. By the spec the
  plugin may issue callbacks during its own initialisation, each one synchronously, and
  its descriptor is sent when the initialisation is over. The plugin below sends its
  next callback when it waits for no answer, takes the answer to the one it waits for,
  and sends the descriptor when no callback is left.
\<close>

definition plugin_step :: "('d, 'e, 'r) construction \<Rightarrow> ('d, 'e, 'r) construction option" where
  "plugin_step s =
     (if plugin_waiting s then
        (case callback_responses s of
           r # rs \<Rightarrow>
             Some (s\<lparr>callback_responses := rs, plugin_answers := plugin_answers s @ [r],
                     plugin_waiting := False\<rparr>)
         | [] \<Rightarrow> None)
      else
        (case plugin_callbacks s of
           e # es \<Rightarrow>
             Some (s\<lparr>callback_requests := callback_requests s @ [e], plugin_callbacks := es,
                     plugin_waiting := True\<rparr>)
         | [] \<Rightarrow>
             (case plugin_descriptor s of
                Some d \<Rightarrow>
                  Some (s\<lparr>descriptor_frames := descriptor_frames s @ [d],
                          plugin_descriptor := None\<rparr>)
              | None \<Rightarrow> None)))"

text \<open>The three parties run side by side: a step of the whole is a step of one of them.\<close>

inductive construction_step ::
  "nat \<Rightarrow> ('d AEffect \<Rightarrow> nat \<Rightarrow> 'e \<Rightarrow> 'r) \<Rightarrow> ('d, 'e, 'r) construction \<Rightarrow>
     ('d, 'e, 'r) construction \<Rightarrow> bool"
  for this :: nat and passthrough_event :: "'d AEffect \<Rightarrow> nat \<Rightarrow> 'e \<Rightarrow> 'r" where
    main: "main_step this s = Some s' \<Longrightarrow> construction_step this passthrough_event s s'"
  | callback: "host_callback_loop_step passthrough_event s = Some s' \<Longrightarrow>
               construction_step this passthrough_event s s'"
  | plugin: "plugin_step s = Some s' \<Longrightarrow> construction_step this passthrough_event s s'"

text \<open>
  The state in which the body of the constructor is entered: the bridge as the member
  initialisers leave it, the connections that will arrive, and a plugin that is to issue
  the callbacks \<open>es\<close> and then to send the descriptor \<open>d\<close>.
\<close>

definition body_entered ::
  "'d HostBridge \<Rightarrow> (error + nat) list \<Rightarrow> 'e list \<Rightarrow> 'd \<Rightarrow> ('d, 'e, 'r) construction" where
  "body_entered b connections es d =
     \<lparr>main_thread = Accepting Host_vst_dispatch, host_bridge = b, arriving = connections,
      callback_requests = [], callback_responses = [], descriptor_frames = [],
      plugin_callbacks = es, plugin_waiting = False, plugin_answers = [],
      plugin_descriptor = Some d\<rparr>"

text \<open>
  For each place of the main thread: how many connections it still has to accept,
  whether the callback socket has been connected, and whether the thread of the callback
  loop has been started.
\<close>

fun to_accept :: "place \<Rightarrow> nat" where
  "to_accept (Accepting Host_vst_dispatch) = 3"
| "to_accept (Accepting Vst_host_callback) = 2"
| "to_accept (Accepting Vst_host_aeffect) = 1"
| "to_accept _ = 0"

fun callback_connected_at :: "place \<Rightarrow> bool" where
  "callback_connected_at (Accepting Host_vst_dispatch) = False"
| "callback_connected_at (Accepting Vst_host_callback) = False"
| "callback_connected_at _ = True"

fun loop_running_at :: "place \<Rightarrow> bool" where
  "loop_running_at Reading_descriptor = True"
| "loop_running_at Constructed = True"
| "loop_running_at _ = False"

fun connections_ahead :: "nat \<Rightarrow> (error + nat) list \<Rightarrow> bool" where
  "connections_ahead 0 xs = True"
| "connections_ahead (Suc n) (Inr c # xs) = connections_ahead n xs"
| "connections_ahead (Suc n) _ = False"

text \<open>
  What holds in every state the construction can get into when three connections arrive:
  the connections still to be accepted have arrived; the callback socket is connected
  and the loop is running as the place of the main thread tells; a plugin that waits has
  its request or the response to it under way, and nothing else is on the callback
  socket; and the descriptor is sent after the last callback and read only once sent.
\<close>

definition coherent :: "('d, 'e, 'r) construction \<Rightarrow> bool" where
  "coherent s =
     (connections_ahead (to_accept (main_thread s)) (arriving s) \<and>
      (callback_connected_at (main_thread s) \<longrightarrow> vst_host_callback (host_bridge s) \<noteq> None) \<and>
      removeme (host_bridge s) = loop_running_at (main_thread s) \<and>
      (main_thread s = Constructed \<longrightarrow> plugin_descriptor s = None) \<and>
      (if plugin_waiting s
       then length (callback_requests s) + length (callback_responses s) = 1
       else callback_requests s = [] \<and> callback_responses s = []) \<and>
      (if plugin_descriptor s = None
       then plugin_callbacks s = [] \<and> \<not> plugin_waiting s \<and>
            (main_thread s = Constructed \<or> descriptor_frames s \<noteq> [])
       else descriptor_frames s = []))"

text \<open>
  A bound on the steps still to come: the statements the main thread has before it, and
  for the plugin three steps for each callback not yet issued, two for a request under
  way, one for a response under way, and the sending and reading of the descriptor.
\<close>

fun statements_left :: "place \<Rightarrow> nat" where
  "statements_left (Accepting Host_vst_dispatch) = 6"
| "statements_left (Accepting Vst_host_callback) = 5"
| "statements_left (Accepting Vst_host_aeffect) = 4"
| "statements_left Installing_pointers = 3"
| "statements_left Starting_callback_loop = 2"
| "statements_left Reading_descriptor = 1"
| "statements_left Constructed = 0"

definition work_left :: "('d, 'e, 'r) construction \<Rightarrow> nat" where
  "work_left s =
     statements_left (main_thread s) + 3 * length (plugin_callbacks s) +
     2 * length (callback_requests s) + length (callback_responses s) +
     (case plugin_descriptor s of Some d \<Rightarrow> 2 | None \<Rightarrow> 0) + length (descriptor_frames s)"

subsection \<open>The plugin entry point\<close>






subsection \<open>A sample run\<close>

text \<open>
  A world to run the constructor in: the library is \<open>/home/u/vst/plugin.so\<close> with the
  plugin and the runner beside it, and three connections arrive.
\<close>

definition sample_world :: "nat world" where
  "sample_world =
     \<lparr>library_location = ''/home/u/vst/plugin.so'',
      canonical_path = (\<lambda>p. p),
      temp_dir = ''/tmp'',
      search_path_of = (\<lambda>n. []),
      files = {''/home/u/vst/plugin.dll'', ''/home/u/vst/yabridge-host.exe''},
      engine_state = 0,
      incoming = [Inr 4, Inr 5, Inr 6],
      trace = []\<rparr>"

definition sample_plugin :: "nat AEffect" where
  "sample_plugin =
     \<lparr>dispatcher = None, process = None, setParameter = None, getParameter = None,
      processReplacing = None, ptr3 = None, info = 0\<rparr>"

definition sample_bridge :: "nat HostBridge" where
  "sample_bridge =
     \<lparr>socket_endpoint = ''/tmp/yabridge/plugin-08IMSmop.sock'',
      host_vst_dispatch = Some 4, vst_host_callback = Some 5, vst_host_aeffect = Some 6,
      host_callback_function = 7,
      vst_host = (''/home/u/vst/yabridge-host.exe'', ''/home/u/vst/plugin.dll'',
                  ''/tmp/yabridge/plugin-08IMSmop.sock''),
      plugin = sample_plugin
        \<lparr>ptr3 := Some 100,
         dispatcher := Some dispatch_proxy,
         process := Some process_proxy,
         setParameter := Some setParameter_proxy,
         getParameter := Some getParameter_proxy,
         processReplacing := Some process_replacing_proxy,
         info := 1447252592\<rparr>,
      removeme = True\<rparr>"

text \<open>The bridge of the sample run as the member initialisers leave it.\<close>

definition sample_initial_bridge :: "nat HostBridge" where
  "sample_initial_bridge =
     \<lparr>socket_endpoint = ''/tmp/yabridge/plugin-08IMSmop.sock'',
      host_vst_dispatch = None, vst_host_callback = None, vst_host_aeffect = None,
      host_callback_function = 7,
      vst_host = (''/home/u/vst/yabridge-host.exe'', ''/home/u/vst/plugin.dll'',
                  ''/tmp/yabridge/plugin-08IMSmop.sock''),
      plugin = sample_plugin, removeme = False\<rparr>"

section \<open>The event loop timer\<close>

text \<open>
  Readings of the steady clock and the timer's expiry are signed 64-bit counts of
  nanoseconds, the clock's own representation: sums wrap around, and the counts are
  compared as signed numbers. A duration given in milliseconds is converted when it is
  added to a time point. \<open>std::chrono::milliseconds(1000) / 60\<close> divides the integer
  count of milliseconds, so the interval is a whole number of milliseconds.
\<close>

type_synonym time_point = "64 word"

definition milliseconds :: "int \<Rightarrow> 64 word" where
  "milliseconds n = word_of_int (n * 1000000)"

definition event_loop_interval :: "64 word" where
  "event_loop_interval = milliseconds (1000 div 60)"

text \<open>\<open>std::max(a, b)\<close> on time points: \<open>b\<close> when \<open>a < b\<close>, else \<open>a\<close>.\<close>

definition std_max :: "time_point \<Rightarrow> time_point \<Rightarrow> time_point" where
  "std_max a b = (if sint a < sint b then b else a)"

record MainContext =
  events_timer_expiry :: time_point

text \<open>
  The rescheduling at the head of \<open>async_handle_events\<close>; \<open>now\<close> is what
  \<open>steady_clock::now()\<close> answers at that moment.
\<close>

definition async_handle_events :: "time_point \<Rightarrow> MainContext \<Rightarrow> MainContext" where
  "async_handle_events now ctx =
     ctx\<lparr>events_timer_expiry :=
           std_max (events_timer_expiry ctx + event_loop_interval) (now + milliseconds 5)\<rparr>"

text \<open>
  What the wait handler sees when the timer fires: an error, after which it returns and
  nothing is scheduled any more, or success, after which the event handler runs and
  \<open>async_handle_events\<close> is entered again at the given clock reading.
\<close>

datatype tick = Failed | Handled time_point

fun event_loop :: "MainContext \<Rightarrow> tick list \<Rightarrow> MainContext list" where
  "event_loop ctx [] = [ctx]"
| "event_loop ctx (Failed # ticks) = [ctx]"
| "event_loop ctx (Handled now # ticks) = ctx # event_loop (async_handle_events now ctx) ticks"

text \<open>
  A time point to which a number of milliseconds can be added without leaving the range
  of the representation.
\<close>

definition room_for :: "int \<Rightarrow> time_point \<Rightarrow> bool" where
  "room_for ms t = (sint t + ms * 1000000 < 2 ^ 63)"

section \<open>Properties of the default data converter\<close>

lemma std_copy_length: "length (std_copy s out mem) = length mem"
  by (induction s out mem rule: std_copy.induct) auto

lemma std_copy_eq:
  "out + length s \<le> length mem \<Longrightarrow>
   std_copy s out mem = take out mem @ s @ drop (out + length s) mem"
proof (induction s out mem rule: std_copy.induct)
  case (1 out mem)
  then show ?case by simp
next
  case (2 c cs out mem)
  then show ?case
    by (simp add: upd_conv_take_nth_drop take_Suc_conv_app_nth add.commute)
qed

lemma c_string_at_decomp:
  assumes "drop p mem = s @ NUL # rest" and "NUL \<notin> set s"
  shows "c_string_at mem p = Some s"
proof -
  have "takeWhile (\<lambda>c. c \<noteq> NUL) (s @ NUL # rest) = s"
    using assms(2) by (induction s) auto
  then show ?thesis
    using assms(1) by (simp add: c_string_at_def)
qed

text \<open>
  Claim C1. The default converter's read classifies a null pointer as the empty payload,
  a pointer to a non-empty zero-terminated string as that string, and a pointer whose
  first byte is zero as the \<open>WantsString\<close> sentinel, never as the empty string.
\<close>

theorem read_classification:
  "DefaultDataConverter_read opcode index val mem None = Some Nullptr \<and>
   (\<forall>p s rest. drop p mem = s @ NUL # rest \<and> s \<noteq> [] \<and> NUL \<notin> set s \<longrightarrow>
      DefaultDataConverter_read opcode index val mem (Some p) = Some (String s)) \<and>
   (\<forall>p. p < length mem \<and> mem ! p = NUL \<longrightarrow>
      DefaultDataConverter_read opcode index val mem (Some p) = Some WantsString \<and>
      DefaultDataConverter_read opcode index val mem (Some p) \<noteq> Some (String []))"
proof (intro conjI allI impI)
  show "DefaultDataConverter_read opcode index val mem None = Some Nullptr"
    by (simp add: DefaultDataConverter_read_def)
next
  fix p s rest
  assume a: "drop p mem = s @ NUL # rest \<and> s \<noteq> [] \<and> NUL \<notin> set s"
  then obtain c cs where s: "s = c # cs" by (cases s) auto
  from a have lt: "p < length mem"
    by (metis drop_eq_Nil not_le_imp_less snoc_eq_iff_butlast append_is_Nil_conv list.distinct(1))
  have "mem ! p = hd (drop p mem)" using lt by (simp add: hd_drop_conv_nth)
  with a s have "mem ! p \<noteq> NUL" by auto
  moreover have "c_string_at mem p = Some s"
    using a by (intro c_string_at_decomp) auto
  ultimately show "DefaultDataConverter_read opcode index val mem (Some p) = Some (String s)"
    using lt by (simp add: DefaultDataConverter_read_def)
next
  fix p assume "p < length mem \<and> mem ! p = NUL"
  then show "DefaultDataConverter_read opcode index val mem (Some p) = Some WantsString"
    by (simp add: DefaultDataConverter_read_def)
  then show "DefaultDataConverter_read opcode index val mem (Some p) \<noteq> Some (String [])"
    by simp
qed

theorem read_classification_witness:
  "DefaultDataConverter_read 5 0 0 (''xab'' @ [NUL] @ ''c'') (Some 1) = Some (String ''ab'') \<and>
   DefaultDataConverter_read 5 0 0 (''xab'' @ [NUL] @ ''c'') (Some 3) = Some WantsString"
proof -
  let ?mem = "''xab'' @ [NUL] @ ''c''"
  note t = read_classification [of 5 0 0 ?mem]
  have d: "drop 1 ?mem = ''ab'' @ NUL # ''c'' \<and> ''ab'' \<noteq> [] \<and> NUL \<notin> set ''ab''"
    by (simp add: NUL_def)
  have z: "3 < length ?mem \<and> ?mem ! 3 = NUL" by simp
  from t d z show ?thesis by blast
qed

text \<open>
  Claim C7. Writing a string result of length \<open>n\<close> back through a pointer with at least
  \<open>n + 1\<close> bytes behind it stores the \<open>n\<close> characters, then one zero byte at offset
  \<open>n\<close>, and changes no other byte; every other payload alternative leaves the memory
  as it was.
\<close>

theorem write_back:
  "(\<forall>s out. payload response = String s \<and> out + length s < length mem \<longrightarrow>
      (\<exists>mem'. DefaultDataConverter_write opcode mem (Some out) response = Some mem' \<and>
         length mem' = length mem \<and>
         take (length s) (drop out mem') = s \<and>
         mem' ! (out + length s) = NUL \<and>
         (\<forall>a < length mem. a < out \<or> out + length s < a \<longrightarrow> mem' ! a = mem ! a))) \<and>
   ((\<forall>s. payload response \<noteq> String s) \<longrightarrow>
      DefaultDataConverter_write opcode mem data response = Some mem)"
proof (intro conjI allI impI)
  fix s out
  assume a: "payload response = String s \<and> out + length s < length mem"
  let ?m = "(std_copy s out mem)[out + length s := NUL]"
  have c: "std_copy s out mem = take out mem @ s @ drop (out + length s) mem"
    using a by (simp add: std_copy_eq)
  have w: "DefaultDataConverter_write opcode mem (Some out) response = Some ?m"
    using a by (simp add: DefaultDataConverter_write_def)
  have l: "length ?m = length mem" by (simp add: std_copy_length)
  have t: "take (length s) (drop out ?m) = s"
    using a by (simp add: c drop_update_swap take_update_cancel min_def)
  have n: "?m ! (out + length s) = NUL"
    using a by (simp add: std_copy_length)
  have f: "\<forall>a < length mem. a < out \<or> out + length s < a \<longrightarrow> ?m ! a = mem ! a"
  proof (intro allI impI)
    fix a assume "a < length mem" and "a < out \<or> out + length s < a"
    then show "?m ! a = mem ! a"
      using a by (auto simp: c nth_append min_def)
  qed
  from w l t n f
  show "\<exists>mem'. DefaultDataConverter_write opcode mem (Some out) response = Some mem' \<and>
         length mem' = length mem \<and>
         take (length s) (drop out mem') = s \<and>
         mem' ! (out + length s) = NUL \<and>
         (\<forall>a < length mem. a < out \<or> out + length s < a \<longrightarrow> mem' ! a = mem ! a)"
    by blast
next
  assume "\<forall>s. payload response \<noteq> String s"
  then show "DefaultDataConverter_write opcode mem data response = Some mem"
    by (cases "payload response") (auto simp: DefaultDataConverter_write_def)
qed

theorem write_back_witness:
  "DefaultDataConverter_write 5 ''abcdefg'' (Some 1) \<lparr>return_value = 1, payload = String ''xy''\<rparr>
     = Some (''axy'' @ [NUL] @ ''efg'') \<and>
   DefaultDataConverter_write 5 ''abcdefg'' (Some 1) \<lparr>return_value = 1, payload = WantsString\<rparr>
     = Some ''abcdefg''"
proof -
  let ?r = "\<lparr>return_value = 1, payload = String ''xy''\<rparr>"
  let ?w = "\<lparr>return_value = 1, payload = WantsString\<rparr>"
  have h: "payload ?r = String ''xy'' \<and> 1 + length ''xy'' < length ''abcdefg''" by simp
  have "\<exists>mem'. DefaultDataConverter_write 5 ''abcdefg'' (Some 1) ?r = Some mem'"
    using write_back [of ?r "''abcdefg''" 5 None] h by blast
  moreover have "DefaultDataConverter_write 5 ''abcdefg'' (Some 1) ?w = Some ''abcdefg''"
    using write_back [of ?w "''abcdefg''" 5 "Some 1"] by simp
  moreover have "DefaultDataConverter_write 5 ''abcdefg'' (Some 1) ?r = Some (''axy'' @ [NUL] @ ''efg'')"
    by (simp add: DefaultDataConverter_write_def)
  ultimately show ?thesis by simp
qed

section \<open>Properties of the binary format sniffer\<close>

lemma uint_byte_bounds: "0 \<le> uint (a :: 8 word) \<and> uint a < 256"
  using uint_lt2p [of a] by simp

lemma split256:
  fixes x y x' y' :: int
  assumes "0 \<le> x \<and> x < 256" "0 \<le> x' \<and> x' < 256" "x + 256 * y = x' + 256 * y'"
  shows "x = x' \<and> y = y'"
proof -
  have "(x + 256 * y) mod 256 = x" "(x' + 256 * y') mod 256 = x'"
    using assms(1,2) by simp_all
  with assms(3) have "x = x'" by simp
  with assms(3) show ?thesis by simp
qed

lemma uint_le_word_step:
  assumes "uint (w :: 32 word) < 2 ^ 24"
  shows "uint (ucast (b :: 8 word) + 256 * w :: 32 word) = uint b + 256 * uint w"
proof -
  have up: "uint (ucast b :: 32 word) = uint b"
    by (simp add: uint_up_ucast is_up)
  have "256 * uint w < 2 ^ 32" "0 \<le> 256 * uint w"
    using assms by simp_all
  then have m: "uint (256 * w) = 256 * uint w"
    by (simp add: uint_word_ariths)
  have "uint b + 256 * uint w < 2 ^ 32" "0 \<le> uint b + 256 * uint w"
    using uint_byte_bounds [of b] assms by simp_all
  then show ?thesis
    using up m by (simp add: uint_word_ariths)
qed

lemma uint_le_word4:
  "uint (le_word [a, b, c, d] :: 32 word) =
     uint a + 256 * (uint b + 256 * (uint c + 256 * uint d))"
proof -
  note bs = uint_byte_bounds [of a] uint_byte_bounds [of b] uint_byte_bounds [of c]
            uint_byte_bounds [of d]
  have d: "uint (le_word [d] :: 32 word) = uint d"
    using uint_le_word_step [of 0 d] by simp
  have "uint (le_word [d] :: 32 word) < 2 ^ 24" using d bs by simp
  then have c: "uint (le_word [c, d] :: 32 word) = uint c + 256 * uint d"
    using uint_le_word_step [of "le_word [d]" c] d by simp
  have "uint (le_word [c, d] :: 32 word) < 2 ^ 24" using c bs by simp
  then have b: "uint (le_word [b, c, d] :: 32 word) = uint b + 256 * (uint c + 256 * uint d)"
    using uint_le_word_step [of "le_word [c, d]" b] c by simp
  have "uint (le_word [b, c, d] :: 32 word) < 2 ^ 24" using b bs by simp
  then show ?thesis
    using uint_le_word_step [of "le_word [b, c, d]" a] b by simp
qed

lemma le_word4_inj:
  assumes "(le_word [a, b, c, d] :: 32 word) = le_word [a', b', c', d']"
  shows "a = a' \<and> b = b' \<and> c = c' \<and> d = d'"
proof -
  have "uint (le_word [a, b, c, d] :: 32 word) = uint (le_word [a', b', c', d'] :: 32 word)"
    using assms by simp
  then have e: "uint a + 256 * (uint b + 256 * (uint c + 256 * uint d)) =
             uint a' + 256 * (uint b' + 256 * (uint c' + 256 * uint d'))"
    by (simp only: uint_le_word4)
  have 1: "uint a = uint a' \<and> uint b + 256 * (uint c + 256 * uint d) =
             uint b' + 256 * (uint c' + 256 * uint d')"
    by (rule split256 [OF uint_byte_bounds uint_byte_bounds e])
  have 2: "uint b = uint b' \<and> uint c + 256 * uint d = uint c' + 256 * uint d'"
    by (rule split256 [OF uint_byte_bounds uint_byte_bounds conjunct2 [OF 1]])
  have 3: "uint c = uint c' \<and> uint d = uint d'"
    by (rule split256 [OF uint_byte_bounds uint_byte_bounds conjunct2 [OF 2]])
  from 1 2 3 show ?thesis by (simp add: word_uint_eq_iff)
qed

lemma signature_differs_iff:
  assumes "length sig = 4"
  shows "((le_word sig :: 32 word) \<noteq> le_word expected_pe_signature) = (sig \<noteq> expected_pe_signature)"
proof -
  from assms obtain a b c d where s: "sig = [a, b, c, d]"
    by (cases sig; simp; rename_tac x xs; case_tac xs; simp; rename_tac y ys; case_tac ys; simp;
        rename_tac z zs; case_tac zs; simp)
  show ?thesis
  proof
    assume "(le_word sig :: 32 word) \<noteq> le_word expected_pe_signature"
    then show "sig \<noteq> expected_pe_signature" by blast
  next
    assume ne: "sig \<noteq> expected_pe_signature"
    show "(le_word sig :: 32 word) \<noteq> le_word expected_pe_signature"
    proof
      assume "(le_word sig :: 32 word) = le_word expected_pe_signature"
      then have "(le_word [a, b, c, d] :: 32 word) = le_word [0x50, 0x45, 0x00, 0x00]"
        unfolding s expected_pe_signature_def .
      from le_word4_inj [OF this] have "sig = expected_pe_signature"
        unfolding s expected_pe_signature_def by blast
      with ne show False by blast
    qed
  qed
qed

lemma find_vst_architecture_readable:
  assumes "0x40 \<le> length f"
      and "off = unat (le_word (take 4 (drop 0x3c f)) :: 32 word)"
      and "off + 6 \<le> length f"
  shows "find_vst_architecture p (Some f) =
     (let m = (le_word (take 2 (drop (off + 4) f)) :: 16 word)
      in if take 4 (drop off f) \<noteq> expected_pe_signature then Some (Inl (Not_a_valid_dll p))
         else if m = 0x014c then Some (Inr vst_32)
         else if m = 0x8664 \<or> m = 0x0000 then Some (Inr vst_64)
         else Some (Inl (Neither_x86_nor_x86_64 p m)))"
proof -
  have l: "length (take 4 (drop off f)) = 4" using assms(3) by simp
  show ?thesis
    using assms signature_differs_iff [OF l]
    by (simp add: find_vst_architecture_def ifstream_open_def seekg_def read_bytes_def Let_def
                  add.commute)
qed

text \<open>
  Claim C5 fails as stated: an image whose machine-type field is \<open>0x0000\<close>, which is
  neither \<open>0x014c\<close> nor \<open>0x8664\<close>, is not rejected but classified as 64-bit, by the
  explicit case label of the switch.
\<close>

theorem machine_type_unknown_counterexample:
  "(le_word [0, 0] :: 16 word) \<noteq> 0x014c \<and> (le_word [0, 0] :: 16 word) \<noteq> 0x8664 \<and>
   find_vst_architecture ''/plugin.dll'' (Some (pe_image expected_pe_signature 0 0)) =
     Some (Inr vst_64)"
  by (simp add: find_vst_architecture_def pe_image_def ifstream_open_def seekg_def
                read_bytes_def expected_pe_signature_def)

text \<open>
  Claim C5, amended. For an image whose header can be read (the offset field at
  \<open>0x3c\<close> and the six bytes it points to lie inside the file): a signature other than
  \<open>PE\0\0\<close> is the invalid-file error; with the right signature, machine type
  \<open>0x014c\<close> gives the 32-bit variant, \<open>0x8664\<close> and \<open>0x0000\<close> give the 64-bit variant,
  and every other machine type is the unsupported-architecture error. The runner name is
  the 32-bit one exactly for the 32-bit variant, and a runner that is found is that
  name beside the library or its entry in the search path.
\<close>

theorem architecture_sniffing:
  "(0x40 \<le> length f \<and> off = unat (le_word (take 4 (drop 0x3c f)) :: 32 word) \<and>
    off + 6 \<le> length f \<and> m = (le_word (take 2 (drop (off + 4) f)) :: 16 word) \<longrightarrow>
      (take 4 (drop off f) \<noteq> expected_pe_signature \<longrightarrow>
         find_vst_architecture p (Some f) = Some (Inl (Not_a_valid_dll p))) \<and>
      (take 4 (drop off f) = expected_pe_signature \<longrightarrow>
         (m = 0x014c \<longrightarrow> find_vst_architecture p (Some f) = Some (Inr vst_32)) \<and>
         (m = 0x8664 \<or> m = 0x0000 \<longrightarrow> find_vst_architecture p (Some f) = Some (Inr vst_64)) \<and>
         (m \<noteq> 0x014c \<and> m \<noteq> 0x8664 \<and> m \<noteq> 0x0000 \<longrightarrow>
            find_vst_architecture p (Some f) = Some (Inl (Neither_x86_nor_x86_64 p m))))) \<and>
   host_name_for env vst_32 = yabridge_wine_host_name_32bit env \<and>
   host_name_for env vst_64 = yabridge_wine_host_name env \<and>
   (\<forall>q. find_vst_host env a = Inr q \<longrightarrow>
      q = path_append (this_file_directory env) (host_name_for env a) \<or>
      q = search_path env (host_name_for env a)) \<and>
   (\<forall>e. find_vst_host env a = Inl e \<longrightarrow> e = Could_not_locate (host_name_for env a))"
proof (intro conjI impI allI)
  assume h: "0x40 \<le> length f \<and> off = unat (le_word (take 4 (drop 0x3c f)) :: 32 word) \<and>
    off + 6 \<le> length f \<and> m = (le_word (take 2 (drop (off + 4) f)) :: 16 word)"
  then have m: "(le_word (take 2 (drop (off + 4) f)) :: 16 word) = m"
    by simp
  from h have "find_vst_architecture p (Some f) =
     (let m = (le_word (take 2 (drop (off + 4) f)) :: 16 word)
      in if take 4 (drop off f) \<noteq> expected_pe_signature then Some (Inl (Not_a_valid_dll p))
         else if m = 0x014c then Some (Inr vst_32)
         else if m = 0x8664 \<or> m = 0x0000 then Some (Inr vst_64)
         else Some (Inl (Neither_x86_nor_x86_64 p m)))"
    by (intro find_vst_architecture_readable) blast+
  then have eq: "find_vst_architecture p (Some f) =
     (if take 4 (drop off f) \<noteq> expected_pe_signature then Some (Inl (Not_a_valid_dll p))
      else if m = 0x014c then Some (Inr vst_32)
      else if m = 0x8664 \<or> m = 0x0000 then Some (Inr vst_64)
      else Some (Inl (Neither_x86_nor_x86_64 p m)))"
    unfolding Let_def m .
  {
    assume "take 4 (drop off f) \<noteq> expected_pe_signature"
    then show "find_vst_architecture p (Some f) = Some (Inl (Not_a_valid_dll p))"
      by (simp add: eq)
  }
  {
    assume s: "take 4 (drop off f) = expected_pe_signature"
    {
      assume "m = 0x014c"
      with s show "find_vst_architecture p (Some f) = Some (Inr vst_32)"
        by (simp add: eq)
    }
    {
      assume "m = 0x8664 \<or> m = 0x0000"
      then have "m \<noteq> 0x014c" by auto
      with s \<open>m = 0x8664 \<or> m = 0x0000\<close>
      show "find_vst_architecture p (Some f) = Some (Inr vst_64)"
        by (simp add: eq)
    }
    {
      assume "m \<noteq> 0x014c \<and> m \<noteq> 0x8664 \<and> m \<noteq> 0x0000"
      with s show "find_vst_architecture p (Some f) = Some (Inl (Neither_x86_nor_x86_64 p m))"
        by (simp add: eq)
    }
  }
next
  show "host_name_for env vst_32 = yabridge_wine_host_name_32bit env"
    by (simp add: host_name_for_def)
next
  show "host_name_for env vst_64 = yabridge_wine_host_name env"
    by (simp add: host_name_for_def)
next
  fix q assume "find_vst_host env a = Inr q"
  then show "q = path_append (this_file_directory env) (host_name_for env a) \<or>
      q = search_path env (host_name_for env a)"
    by (auto simp: find_vst_host_def Let_def split: if_splits)
next
  fix e assume "find_vst_host env a = Inl e"
  then show "e = Could_not_locate (host_name_for env a)"
    by (auto simp: find_vst_host_def Let_def split: if_splits)
qed

lemma pe_image_header:
  "length sig = 4 \<Longrightarrow>
   0x40 \<le> length (pe_image sig m0 m1) \<and>
   0x40 = unat (le_word (take 4 (drop 0x3c (pe_image sig m0 m1))) :: 32 word) \<and>
   0x40 + 6 \<le> length (pe_image sig m0 m1) \<and>
   take 4 (drop 0x40 (pe_image sig m0 m1)) = sig \<and>
   take 2 (drop (0x40 + 4) (pe_image sig m0 m1)) = [m0, m1]"
  by (simp add: pe_image_def)

theorem architecture_sniffing_witness:
  "find_vst_architecture ''/plugin.dll'' (Some (pe_image expected_pe_signature 0x4c 0x01)) =
     Some (Inr vst_32) \<and>
   find_vst_architecture ''/plugin.dll'' (Some (pe_image expected_pe_signature 0x64 0x86)) =
     Some (Inr vst_64) \<and>
   find_vst_architecture ''/plugin.dll'' (Some (pe_image expected_pe_signature 0xc4 0x01)) =
     Some (Inl (Neither_x86_nor_x86_64 ''/plugin.dll'' 0x01c4)) \<and>
   find_vst_architecture ''/plugin.dll'' (Some (pe_image [0x4d, 0x5a, 0x90, 0x00] 0x4c 0x01)) =
     Some (Inl (Not_a_valid_dll ''/plugin.dll'')) \<and>
   find_vst_host
     \<lparr>yabridge_wine_host_name = ''yabridge-host.exe'',
      yabridge_wine_host_name_32bit = ''yabridge-host-32.exe'',
      this_file_directory = ''/usr/lib'',
      exists_host = (\<lambda>q. q = ''/usr/lib/yabridge-host-32.exe''),
      search_path = (\<lambda>n. [])\<rparr> vst_32 = Inr ''/usr/lib/yabridge-host-32.exe'' \<and>
   find_vst_host
     \<lparr>yabridge_wine_host_name = ''yabridge-host.exe'',
      yabridge_wine_host_name_32bit = ''yabridge-host-32.exe'',
      this_file_directory = ''/usr/lib'',
      exists_host = (\<lambda>q. q = ''/usr/lib/yabridge-host-32.exe''),
      search_path = (\<lambda>n. [])\<rparr> vst_64 = Inl (Could_not_locate ''yabridge-host.exe'')"
proof -
  let ?p = "''/plugin.dll''"
  let ?env = "\<lparr>yabridge_wine_host_name = ''yabridge-host.exe'',
               yabridge_wine_host_name_32bit = ''yabridge-host-32.exe'',
               this_file_directory = ''/usr/lib'',
               exists_host = (\<lambda>q. q = ''/usr/lib/yabridge-host-32.exe''),
               search_path = (\<lambda>n. [])\<rparr>"
  have h32: "find_vst_host ?env vst_32 = Inr ''/usr/lib/yabridge-host-32.exe''"
    by (simp add: find_vst_host_def host_name_for_def path_append_def)
  have "\<exists>e. find_vst_host ?env vst_64 = Inl e"
    by (simp add: find_vst_host_def host_name_for_def path_append_def)
  then have h64: "find_vst_host ?env vst_64 = Inl (Could_not_locate ''yabridge-host.exe'')"
    using architecture_sniffing [of "[]" 0 0 ?p ?env vst_64] by auto
  have l: "length expected_pe_signature = 4" "length [0x4d, 0x5a, 0x90, 0x00 :: byte] = 4"
    by (simp_all add: expected_pe_signature_def)
  have ne: "[0x4d, 0x5a, 0x90, 0x00] \<noteq> expected_pe_signature"
    by (simp add: expected_pe_signature_def)
  have m: "(le_word [0x4c, 0x01] :: 16 word) = 0x014c" "(le_word [0x64, 0x86] :: 16 word) = 0x8664"
          "(le_word [0xc4, 0x01] :: 16 word) = 0x01c4"
    by simp_all
  have "find_vst_architecture ?p (Some (pe_image expected_pe_signature 0x4c 0x01)) = Some (Inr vst_32)"
    using architecture_sniffing [of "pe_image expected_pe_signature 0x4c 0x01" "0x40" "0x014c" ?p ?env vst_32]
          pe_image_header [OF l(1), of "0x4c" "0x01"] m(1)
    by simp
  moreover
  have "find_vst_architecture ?p (Some (pe_image expected_pe_signature 0x64 0x86)) = Some (Inr vst_64)"
    using architecture_sniffing [of "pe_image expected_pe_signature 0x64 0x86" "0x40" "0x8664" ?p ?env vst_64]
          pe_image_header [OF l(1), of "0x64" "0x86"] m(2)
    by simp
  moreover
  have "find_vst_architecture ?p (Some (pe_image expected_pe_signature 0xc4 0x01)) =
          Some (Inl (Neither_x86_nor_x86_64 ?p 0x01c4))"
    using architecture_sniffing [of "pe_image expected_pe_signature 0xc4 0x01" "0x40" "0x01c4" ?p ?env vst_64]
          pe_image_header [OF l(1), of "0xc4" "0x01"] m(3)
    by simp
  moreover
  have "find_vst_architecture ?p (Some (pe_image [0x4d, 0x5a, 0x90, 0x00] 0x4c 0x01)) =
          Some (Inl (Not_a_valid_dll ?p))"
    using architecture_sniffing [of "pe_image [0x4d, 0x5a, 0x90, 0x00] 0x4c 0x01" "0x40" "0x014c" ?p ?env vst_32]
          pe_image_header [OF l(2), of "0x4c" "0x01"] m(1) ne
    by simp
  ultimately show ?thesis using h32 h64 by blast
qed

section \<open>Properties of the endpoint names\<close>










lemma random_id_0: "random_id sample_engine 0 = (''08IMSmop'', 52)"
  by code_simp






section \<open>Properties of the host bridge\<close>

lemma bind_outcome_Returns:
  "(bind_outcome m f = Returns r) = (\<exists>x. m = Returns x \<and> f x = Returns r)"
  by (cases m) (simp_all add: bind_outcome_def)

lemma in_constructor_Returns: "(in_constructor b m = Returns x) = (m = Returns x)"
  by (cases m) (simp_all add: in_constructor_def destroy_members_def)

lemma accept_Returns:
  "(accept ch w = Returns (c, w')) =
     (\<exists>rest. incoming w = Inr c # rest \<and>
             w' = w\<lparr>incoming := rest, trace := trace w @ [Accepted ch c]\<rparr>)"
  by (auto simp: accept_def split: list.splits sum.splits)

lemma HostBridge_initializers_Returns:
  assumes "HostBridge_initializers step host_callback plugin0 w = Returns (b, w1)"
  shows "incoming w1 = incoming w \<and> trace w1 = trace w \<and> plugin b = plugin0 \<and>
         removeme b = False"
  using assms
  by (auto simp: HostBridge_initializers_def Let_def bind_outcome_Returns
           split: option.splits sum.splits prod.splits)

lemma HostBridge_before_read_Returns:
  assumes "HostBridge_before_read this b w = Returns (c, b1, w1)"
  shows "\<exists>c1 c2 rest.
           incoming w = Inr c1 # Inr c2 # Inr c # rest \<and>
           b1 = b\<lparr>host_vst_dispatch := Some c1, vst_host_callback := Some c2,
                  vst_host_aeffect := Some c,
                  plugin := (plugin b)\<lparr>ptr3 := Some this,
                    dispatcher := Some dispatch_proxy,
                    process := Some process_proxy,
                    setParameter := Some setParameter_proxy,
                    getParameter := Some getParameter_proxy,
                    processReplacing := Some process_replacing_proxy\<rparr>,
                  removeme := True\<rparr> \<and>
           w1 = w\<lparr>incoming := rest,
                  trace := trace w @
                    [Accepted Host_vst_dispatch c1, Accepted Vst_host_callback c2,
                     Accepted Vst_host_aeffect c, Pointers_installed, Callback_loop_started]\<rparr>"
  using assms
  by (auto simp: HostBridge_before_read_def bind_outcome_Returns in_constructor_Returns
        accept_Returns Let_def)

lemma HostBridge_body_Returns:
  assumes "HostBridge_body reader this b w = Returns (b', w')"
  shows "\<exists>c1 c2 c3 rest p.
           incoming w = Inr c1 # Inr c2 # Inr c3 # rest \<and>
           reader c3
             ((plugin b)\<lparr>ptr3 := Some this,
                dispatcher := Some dispatch_proxy,
                process := Some process_proxy,
                setParameter := Some setParameter_proxy,
                getParameter := Some getParameter_proxy,
                processReplacing := Some process_replacing_proxy\<rparr>) = Returns p \<and>
           b' = b\<lparr>host_vst_dispatch := Some c1, vst_host_callback := Some c2,
                  vst_host_aeffect := Some c3, plugin := p, removeme := True\<rparr> \<and>
           w' = w\<lparr>incoming := rest,
                  trace := trace w @
                    [Accepted Host_vst_dispatch c1, Accepted Vst_host_callback c2,
                     Accepted Vst_host_aeffect c3, Pointers_installed, Callback_loop_started,
                     Descriptor_read]\<rparr>"
  using assms
  by (auto simp: HostBridge_body_def HostBridge_before_read_def bind_outcome_Returns
        in_constructor_Returns accept_Returns Let_def)

lemma HostBridge_ctor_Returns:
  assumes "HostBridge_ctor step reader this host_callback plugin0 w = Returns (b, w')"
  shows "\<exists>c1 c2 c3 rest p.
           incoming w = Inr c1 # Inr c2 # Inr c3 # rest \<and>
           reader c3
             (plugin0\<lparr>ptr3 := Some this,
                dispatcher := Some dispatch_proxy,
                process := Some process_proxy,
                setParameter := Some setParameter_proxy,
                getParameter := Some getParameter_proxy,
                processReplacing := Some process_replacing_proxy\<rparr>) = Returns p \<and>
           host_vst_dispatch b = Some c1 \<and> vst_host_callback b = Some c2 \<and>
           vst_host_aeffect b = Some c3 \<and> plugin b = p \<and> removeme b \<and>
           incoming w' = rest \<and>
           trace w' = trace w @
                    [Accepted Host_vst_dispatch c1, Accepted Vst_host_callback c2,
                     Accepted Vst_host_aeffect c3, Pointers_installed, Callback_loop_started,
                     Descriptor_read]"
proof -
  from assms obtain b0 w0 where
    i: "HostBridge_initializers step host_callback plugin0 w = Returns (b0, w0)"
    and bd: "HostBridge_body reader this b0 w0 = Returns (b, w')"
    unfolding HostBridge_ctor_def bind_outcome_Returns by auto
  from HostBridge_initializers_Returns [OF i]
  have e: "incoming w0 = incoming w" "trace w0 = trace w" "plugin b0 = plugin0" by simp_all
  from HostBridge_body_Returns [OF bd] obtain c1 c2 c3 rest p where
    inc: "incoming w0 = Inr c1 # Inr c2 # Inr c3 # rest"
    and rd: "reader c3
             ((plugin b0)\<lparr>ptr3 := Some this,
                dispatcher := Some dispatch_proxy,
                process := Some process_proxy,
                setParameter := Some setParameter_proxy,
                getParameter := Some getParameter_proxy,
                processReplacing := Some process_replacing_proxy\<rparr>) = Returns p"
    and b: "b = b0\<lparr>host_vst_dispatch := Some c1, vst_host_callback := Some c2,
                  vst_host_aeffect := Some c3, plugin := p, removeme := True\<rparr>"
    and w': "w' = w0\<lparr>incoming := rest,
                  trace := trace w0 @
                    [Accepted Host_vst_dispatch c1, Accepted Vst_host_callback c2,
                     Accepted Vst_host_aeffect c3, Pointers_installed, Callback_loop_started,
                     Descriptor_read]\<rparr>"
    by blast
  have "incoming w = Inr c1 # Inr c2 # Inr c3 # rest" using inc e by simp
  moreover have "reader c3
             (plugin0\<lparr>ptr3 := Some this,
                dispatcher := Some dispatch_proxy,
                process := Some process_proxy,
                setParameter := Some setParameter_proxy,
                getParameter := Some getParameter_proxy,
                processReplacing := Some process_replacing_proxy\<rparr>) = Returns p"
    using rd e by simp
  moreover have "host_vst_dispatch b = Some c1" "vst_host_callback b = Some c2"
    "vst_host_aeffect b = Some c3" "plugin b = p" "removeme b"
    by (simp_all add: b)
  moreover have "incoming w' = rest" by (simp add: w')
  moreover have "trace w' = trace w @
                    [Accepted Host_vst_dispatch c1, Accepted Vst_host_callback c2,
                     Accepted Vst_host_aeffect c3, Pointers_installed, Callback_loop_started,
                     Descriptor_read]"
    by (simp add: w' e)
  ultimately show ?thesis by blast
qed

lemma HostBridge_initializers_eq:
  assumes "generate_endpoint_name step (temp_dir w) (library_location w) (canonical_path w)
             (files w) (engine_state w) = Some (Inr (endpoint, fs', g'))"
    and "find_wine_vst_host (w\<lparr>files := insert endpoint fs', engine_state := g'\<rparr>) = Inr host"
    and "find_vst_plugin (library_location w) (canonical_path w) (insert endpoint fs') = Inr vst"
  shows "HostBridge_initializers step host_callback plugin0 w =
     Returns (\<lparr>socket_endpoint = endpoint,
                 host_vst_dispatch = None, vst_host_callback = None, vst_host_aeffect = None,
                 host_callback_function = host_callback,
                 vst_host = (host, vst, endpoint),
                 plugin = plugin0, removeme = False\<rparr>,
              w\<lparr>files := insert endpoint fs', engine_state := g'\<rparr>)"
  using assms
  by (simp add: HostBridge_initializers_def Let_def bind_outcome_def of_sum_def)

lemma sample_initializers:
  "\<exists>fs'. HostBridge_initializers sample_engine 7 p0 sample_world =
     Returns (\<lparr>socket_endpoint = ''/tmp/yabridge/plugin-08IMSmop.sock'',
                 host_vst_dispatch = None, vst_host_callback = None, vst_host_aeffect = None,
                 host_callback_function = 7,
                 vst_host = (''/home/u/vst/yabridge-host.exe'', ''/home/u/vst/plugin.dll'',
                             ''/tmp/yabridge/plugin-08IMSmop.sock''),
                 plugin = p0, removeme = False\<rparr>,
              sample_world\<lparr>files := fs', engine_state := 52\<rparr>)"
proof -
  let ?fs = "{''/home/u/vst/plugin.dll'', ''/home/u/vst/yabridge-host.exe''}"
  let ?q = "''/tmp/yabridge/plugin-08IMSmop.sock''"
  let ?fs' = "create_directories (parent_path ?q) ?fs"
  have pl: "\<And>fs. ''/home/u/vst/plugin.dll'' \<in> fs \<Longrightarrow>
      find_vst_plugin ''/home/u/vst/plugin.so'' (\<lambda>p. p) fs = Inr ''/home/u/vst/plugin.dll''"
    by (simp add: find_vst_plugin_def replace_extension_def extension_def filename_def)
  have nm: "replace_extension (filename ''/home/u/vst/plugin.dll'') [] = ''plugin''"
    by (simp add: replace_extension_def extension_def filename_def)
  have "endpoint_loop sample_engine (\<lambda>rid. path_append (path_append ''/tmp'' ''yabridge'')
                                       (''plugin'' @ ''-'' @ rid @ ''.sock'')) ?fs 0 =
          Some (?q, 52)"
    by (subst endpoint_loop.simps) (simp add: random_id_0 path_append_def)
  then have name: "generate_endpoint_name sample_engine (temp_dir sample_world)
          (library_location sample_world) (canonical_path sample_world) (files sample_world)
          (engine_state sample_world) = Some (Inr (?q, ?fs', 52))"
    by (simp add: generate_endpoint_name_def pl nm sample_world_def)
  have host: "find_wine_vst_host (sample_world\<lparr>files := insert ?q ?fs', engine_state := 52\<rparr>) =
          Inr ''/home/u/vst/yabridge-host.exe''"
    by (simp add: find_wine_vst_host_def sample_world_def parent_path_def path_append_def
          yabridge_wine_host_name_const_def create_directories_def)
  have pl': "find_vst_plugin (library_location sample_world) (canonical_path sample_world)
          (insert ?q ?fs') = Inr ''/home/u/vst/plugin.dll''"
    unfolding sample_world_def by (simp add: pl create_directories_def)
  from HostBridge_initializers_eq [OF name host pl', of 7 p0] show ?thesis
    by blast
qed

lemma sample_construction:
  assumes "reader 6 (p0\<lparr>ptr3 := Some 100,
                dispatcher := Some dispatch_proxy,
                process := Some process_proxy,
                setParameter := Some setParameter_proxy,
                getParameter := Some getParameter_proxy,
                processReplacing := Some process_replacing_proxy\<rparr>) = Returns p"
  shows "\<exists>b w'. HostBridge_ctor sample_engine reader 100 7 p0 sample_world = Returns (b, w')"
proof -
  from sample_initializers [of p0] obtain fs' b0 where
    i: "HostBridge_initializers sample_engine 7 p0 sample_world =
          Returns (b0, sample_world\<lparr>files := fs', engine_state := 52\<rparr>)"
    and p: "plugin b0 = p0"
    by force
  have "\<exists>b w'. HostBridge_body reader 100 b0 (sample_world\<lparr>files := fs', engine_state := 52\<rparr>) =
          Returns (b, w')"
    using assms p
    by (simp add: HostBridge_body_def HostBridge_before_read_def accept_def sample_world_def
          bind_outcome_def in_constructor_def Let_def)
  with i show ?thesis
    by (simp add: HostBridge_ctor_def bind_outcome_def)
qed

subsection \<open>The construction beside the callback thread and the plugin\<close>

lemma coherent_body_entered:
  "\<not> removeme b \<Longrightarrow> coherent (body_entered b (Inr c1 # Inr c2 # Inr c3 # rest) es d)"
  by (simp add: coherent_def body_entered_def numeral_3_eq_3)

lemma connections_ahead_Suc:
  "connections_ahead (Suc n) xs = (\<exists>c rest. xs = Inr c # rest \<and> connections_ahead n rest)"
  by (cases "(Suc n, xs)" rule: connections_ahead.cases) auto

lemma coherent_main_step:
  assumes "coherent s" and "main_step this s = Some s'"
  shows "coherent s'"
proof (cases "main_thread s")
  case (Accepting ch)
  from assms(2) Accepting obtain c rest where a: "arriving s = Inr c # rest"
    by (auto simp: main_step_def split: list.splits sum.splits)
  show ?thesis
  proof (cases ch)
    case Host_vst_dispatch
    with assms Accepting a show ?thesis
      by (auto simp: coherent_def main_step_def numeral_3_eq_3 numeral_2_eq_2 split: if_splits)
  next
    case Vst_host_callback
    with assms Accepting a show ?thesis
      by (auto simp: coherent_def main_step_def numeral_2_eq_2 split: if_splits)
  next
    case Vst_host_aeffect
    with assms Accepting a show ?thesis
      by (auto simp: coherent_def main_step_def split: if_splits)
  qed
next
  case Installing_pointers
  with assms show ?thesis
    by (auto simp: coherent_def main_step_def split: if_splits)
next
  case Starting_callback_loop
  with assms show ?thesis
    by (auto simp: coherent_def main_step_def split: if_splits)
next
  case Reading_descriptor
  from assms(2) Reading_descriptor obtain d ds where f: "descriptor_frames s = d # ds"
    by (auto simp: main_step_def split: list.splits)
  with assms(1) have n: "plugin_descriptor s = None"
    by (auto simp: coherent_def split: if_splits)
  from assms Reading_descriptor f n show ?thesis
    by (auto simp: coherent_def main_step_def split: if_splits)
next
  case Constructed
  with assms show ?thesis by (simp add: main_step_def)
qed

lemma coherent_callback_step:
  assumes "coherent s" and "host_callback_loop_step passthrough_event s = Some s'"
  shows "coherent s'"
proof -
  from assms(2) obtain e es where
    r: "callback_requests s = e # es"
    and s': "s' = s\<lparr>callback_requests := es,
                     callback_responses := callback_responses s @
                       [passthrough_event (plugin (host_bridge s))
                          (host_callback_function (host_bridge s)) e]\<rparr>"
    by (auto simp: host_callback_loop_step_def split: if_splits list.splits)
  from assms(1) r have w: "plugin_waiting s" "es = []" "callback_responses s = []"
    by (auto simp: coherent_def split: if_splits)
  from assms(1) w r show ?thesis
    unfolding s' by (auto simp: coherent_def split: if_splits)
qed

lemma coherent_plugin_step:
  assumes "coherent s" and "plugin_step s = Some s'"
  shows "coherent s'"
proof (cases "plugin_waiting s")
  case True
  with assms(2) obtain r rs where
    c: "callback_responses s = r # rs"
    and s': "s' = s\<lparr>callback_responses := rs, plugin_answers := plugin_answers s @ [r],
                     plugin_waiting := False\<rparr>"
    by (auto simp: plugin_step_def split: list.splits)
  from assms(1) True c have e: "rs = []" "callback_requests s = []"
    by (auto simp: coherent_def)
  from assms(1) True have "plugin_descriptor s \<noteq> None"
    by (auto simp: coherent_def split: if_splits)
  with assms(1) True c e show ?thesis
    unfolding s' by (auto simp: coherent_def split: if_splits)
next
  case False
  show ?thesis
  proof (cases "plugin_callbacks s")
    case (Cons e es)
    with assms(2) False have
      s': "s' = s\<lparr>callback_requests := callback_requests s @ [e], plugin_callbacks := es,
                     plugin_waiting := True\<rparr>"
      by (simp add: plugin_step_def)
    from assms(1) Cons have "plugin_descriptor s \<noteq> None"
      by (auto simp: coherent_def split: if_splits)
    with assms(1) False Cons show ?thesis
      unfolding s' by (auto simp: coherent_def split: if_splits)
  next
    case Nil
    with assms(2) False obtain d where
      d: "plugin_descriptor s = Some d"
      and s': "s' = s\<lparr>descriptor_frames := descriptor_frames s @ [d],
                       plugin_descriptor := None\<rparr>"
      by (auto simp: plugin_step_def split: option.splits)
    from assms(1) False Nil d show ?thesis
      unfolding s' by (auto simp: coherent_def split: if_splits)
  qed
qed

lemma coherent_step:
  assumes "construction_step this passthrough_event s s'" and "coherent s"
  shows "coherent s'"
  using assms
  by (cases rule: construction_step.cases)
     (blast intro: coherent_main_step coherent_callback_step coherent_plugin_step)+

lemma coherent_reachable:
  assumes "rtranclp (construction_step this passthrough_event) s s'" and "coherent s"
  shows "coherent s'"
  using assms by (induction rule: rtranclp_induct) (blast intro: coherent_step)+

lemma never_stuck:
  assumes "coherent s" and "main_thread s \<noteq> Constructed"
  shows "\<exists>s'. construction_step this passthrough_event s s'"
proof (cases "\<exists>s'. main_step this s = Some s'")
  case True
  then show ?thesis by (blast intro: construction_step.main)
next
  case False
  have rd: "main_thread s = Reading_descriptor"
  proof (cases "main_thread s")
    case (Accepting ch)
    with assms(1) have "connections_ahead (Suc (to_accept (main_thread s) - 1)) (arriving s)"
      by (cases ch) (simp_all add: coherent_def numeral_3_eq_3 numeral_2_eq_2)
    then obtain c rest where "arriving s = Inr c # rest"
      unfolding connections_ahead_Suc by blast
    with Accepting have "\<exists>s'. main_step this s = Some s'"
      by (cases ch) (simp_all add: main_step_def)
    with False show ?thesis by blast
  next
    case Installing_pointers
    then have "\<exists>s'. main_step this s = Some s'" by (simp add: main_step_def)
    with False show ?thesis by blast
  next
    case Starting_callback_loop
    then have "\<exists>s'. main_step this s = Some s'" by (simp add: main_step_def)
    with False show ?thesis by blast
  next
    case Reading_descriptor
    then show ?thesis .
  next
    case Constructed
    with assms(2) show ?thesis by blast
  qed
  have df: "descriptor_frames s = []"
  proof (cases "descriptor_frames s")
    case Nil
    then show ?thesis .
  next
    case (Cons d ds)
    with rd have "\<exists>s'. main_step this s = Some s'" by (simp add: main_step_def)
    with False show ?thesis by blast
  qed
  from assms(1) rd have run: "removeme (host_bridge s)" "vst_host_callback (host_bridge s) \<noteq> None"
    by (simp_all add: coherent_def)
  from assms(1) rd df obtain d where d: "plugin_descriptor s = Some d"
    by (cases "plugin_descriptor s") (auto simp: coherent_def split: if_splits)
  show ?thesis
  proof (cases "plugin_waiting s")
    case False
    with d have "\<exists>s'. plugin_step s = Some s'"
      by (cases "plugin_callbacks s") (simp_all add: plugin_step_def)
    then show ?thesis by (blast intro: construction_step.plugin)
  next
    case True
    show ?thesis
    proof (cases "callback_requests s")
      case (Cons e es)
      with run have "\<exists>s'. host_callback_loop_step passthrough_event s = Some s'"
        by (simp add: host_callback_loop_step_def)
      then show ?thesis by (blast intro: construction_step.callback)
    next
      case Nil
      with assms(1) True have "callback_responses s \<noteq> []"
        by (auto simp: coherent_def split: if_splits)
      with True have "\<exists>s'. plugin_step s = Some s'"
        by (cases "callback_responses s") (simp_all add: plugin_step_def)
      then show ?thesis by (blast intro: construction_step.plugin)
    qed
  qed
qed

lemma main_reaches_read:
  "rtranclp (construction_step this passthrough_event)
     (body_entered b (Inr c1 # Inr c2 # Inr c3 # rest) es d)
     ((body_entered b rest es d)
        \<lparr>main_thread := Reading_descriptor,
         host_bridge := b\<lparr>host_vst_dispatch := Some c1, vst_host_callback := Some c2,
                  vst_host_aeffect := Some c3,
                  plugin := (plugin b)\<lparr>ptr3 := Some this,
                    dispatcher := Some dispatch_proxy,
                    process := Some process_proxy,
                    setParameter := Some setParameter_proxy,
                    getParameter := Some getParameter_proxy,
                    processReplacing := Some process_replacing_proxy\<rparr>,
                  removeme := True\<rparr>\<rparr>)"
proof -
  let ?s0 = "body_entered b (Inr c1 # Inr c2 # Inr c3 # rest) es d
               :: ('a, 'b, 'c) construction"
  let ?p = "(plugin b)\<lparr>ptr3 := Some this,
                    dispatcher := Some dispatch_proxy,
                    process := Some process_proxy,
                    setParameter := Some setParameter_proxy,
                    getParameter := Some getParameter_proxy,
                    processReplacing := Some process_replacing_proxy\<rparr>"
  let ?s1 = "?s0\<lparr>host_bridge := b\<lparr>host_vst_dispatch := Some c1\<rparr>,
                 arriving := Inr c2 # Inr c3 # rest, main_thread := Accepting Vst_host_callback\<rparr>"
  let ?s2 = "?s0\<lparr>host_bridge := b\<lparr>host_vst_dispatch := Some c1, vst_host_callback := Some c2\<rparr>,
                 arriving := Inr c3 # rest, main_thread := Accepting Vst_host_aeffect\<rparr>"
  let ?s3 = "?s0\<lparr>host_bridge := b\<lparr>host_vst_dispatch := Some c1, vst_host_callback := Some c2,
                                  vst_host_aeffect := Some c3\<rparr>,
                 arriving := rest, main_thread := Installing_pointers\<rparr>"
  let ?s4 = "?s0\<lparr>host_bridge := b\<lparr>host_vst_dispatch := Some c1, vst_host_callback := Some c2,
                                  vst_host_aeffect := Some c3, plugin := ?p\<rparr>,
                 arriving := rest, main_thread := Starting_callback_loop\<rparr>"
  let ?s5 = "?s0\<lparr>host_bridge := b\<lparr>host_vst_dispatch := Some c1, vst_host_callback := Some c2,
                                  vst_host_aeffect := Some c3, plugin := ?p, removeme := True\<rparr>,
                 arriving := rest, main_thread := Reading_descriptor\<rparr>"
  have "main_step this ?s0 = Some ?s1" by (simp add: main_step_def body_entered_def)
  then have 1: "construction_step this passthrough_event ?s0 ?s1"
    by (rule construction_step.main)
  have "main_step this ?s1 = Some ?s2" by (simp add: main_step_def body_entered_def)
  then have 2: "construction_step this passthrough_event ?s1 ?s2"
    by (rule construction_step.main)
  have "main_step this ?s2 = Some ?s3" by (simp add: main_step_def body_entered_def)
  then have 3: "construction_step this passthrough_event ?s2 ?s3"
    by (rule construction_step.main)
  have "main_step this ?s3 = Some ?s4" by (simp add: main_step_def body_entered_def)
  then have 4: "construction_step this passthrough_event ?s3 ?s4"
    by (rule construction_step.main)
  have "main_step this ?s4 = Some ?s5" by (simp add: main_step_def body_entered_def)
  then have 5: "construction_step this passthrough_event ?s4 ?s5"
    by (rule construction_step.main)
  have e: "?s5 = (body_entered b rest es d)
        \<lparr>main_thread := Reading_descriptor,
         host_bridge := b\<lparr>host_vst_dispatch := Some c1, vst_host_callback := Some c2,
                  vst_host_aeffect := Some c3, plugin := ?p, removeme := True\<rparr>\<rparr>"
    by (simp add: body_entered_def)
  from 1 2 3 4 5 have "rtranclp (construction_step this passthrough_event) ?s0 ?s5"
    by (meson rtranclp.rtrancl_into_rtrancl rtranclp.rtrancl_refl)
  then show ?thesis by (simp only: e)
qed

lemma callbacks_served:
  assumes "main_thread s = Reading_descriptor" and "removeme (host_bridge s)"
    and "vst_host_callback (host_bridge s) \<noteq> None"
    and "callback_requests s = []" and "callback_responses s = []"
    and "\<not> plugin_waiting s" and "plugin_callbacks s = es"
  shows "\<exists>s'. rtranclp (construction_step this passthrough_event) s s' \<and>
           main_thread s' = Reading_descriptor \<and> host_bridge s' = host_bridge s \<and>
           callback_requests s' = [] \<and> callback_responses s' = [] \<and>
           descriptor_frames s' = descriptor_frames s \<and>
           plugin_callbacks s' = [] \<and> \<not> plugin_waiting s' \<and>
           plugin_descriptor s' = plugin_descriptor s \<and>
           plugin_answers s' = plugin_answers s @
             map (passthrough_event (plugin (host_bridge s)) (host_callback_function (host_bridge s)))
               es"
  using assms
proof (induction es arbitrary: s)
  case Nil
  then show ?case by auto
next
  case (Cons e es)
  let ?f = "passthrough_event (plugin (host_bridge s)) (host_callback_function (host_bridge s))"
  let ?s1 = "s\<lparr>callback_requests := callback_requests s @ [e], plugin_callbacks := es,
                 plugin_waiting := True\<rparr>"
  let ?s2 = "?s1\<lparr>callback_requests := [], callback_responses := callback_responses ?s1 @ [?f e]\<rparr>"
  let ?s3 = "?s2\<lparr>callback_responses := [], plugin_answers := plugin_answers ?s2 @ [?f e],
                  plugin_waiting := False\<rparr>"
  have "plugin_step s = Some ?s1"
    using Cons.prems by (simp add: plugin_step_def)
  then have 1: "construction_step this passthrough_event s ?s1"
    by (rule construction_step.plugin)
  have "host_callback_loop_step passthrough_event ?s1 = Some ?s2"
    using Cons.prems by (simp add: host_callback_loop_step_def)
  then have 2: "construction_step this passthrough_event ?s1 ?s2"
    by (rule construction_step.callback)
  have "plugin_step ?s2 = Some ?s3"
    using Cons.prems by (simp add: plugin_step_def)
  then have 3: "construction_step this passthrough_event ?s2 ?s3"
    by (rule construction_step.plugin)
  from 1 2 3 have r: "rtranclp (construction_step this passthrough_event) s ?s3"
    by (meson rtranclp.rtrancl_into_rtrancl rtranclp.rtrancl_refl)
  have "\<exists>s'. rtranclp (construction_step this passthrough_event) ?s3 s' \<and>
           main_thread s' = Reading_descriptor \<and> host_bridge s' = host_bridge ?s3 \<and>
           callback_requests s' = [] \<and> callback_responses s' = [] \<and>
           descriptor_frames s' = descriptor_frames ?s3 \<and>
           plugin_callbacks s' = [] \<and> \<not> plugin_waiting s' \<and>
           plugin_descriptor s' = plugin_descriptor ?s3 \<and>
           plugin_answers s' = plugin_answers ?s3 @
             map (passthrough_event (plugin (host_bridge ?s3))
                    (host_callback_function (host_bridge ?s3))) es"
    using Cons.prems by (intro Cons.IH) simp_all
  then obtain s' where
    r': "rtranclp (construction_step this passthrough_event) ?s3 s'"
    and f: "main_thread s' = Reading_descriptor" "host_bridge s' = host_bridge s"
      "callback_requests s' = []" "callback_responses s' = []"
      "descriptor_frames s' = descriptor_frames s" "plugin_callbacks s' = []"
      "\<not> plugin_waiting s'" "plugin_descriptor s' = plugin_descriptor s"
    and a: "plugin_answers s' = plugin_answers s @ [?f e] @ map ?f es"
    by auto
  from r r' have "rtranclp (construction_step this passthrough_event) s s'"
    by (rule rtranclp_trans)
  with f a show ?case by auto
qed

lemma construction_completes:
  "\<exists>s. rtranclp (construction_step this passthrough_event)
          (body_entered b (Inr c1 # Inr c2 # Inr c3 # rest) es d) s \<and>
        main_thread s = Constructed \<and>
        host_bridge s =
          b\<lparr>host_vst_dispatch := Some c1, vst_host_callback := Some c2,
            vst_host_aeffect := Some c3,
            plugin := (plugin b)\<lparr>ptr3 := Some this,
                    dispatcher := Some dispatch_proxy,
                    process := Some process_proxy,
                    setParameter := Some setParameter_proxy,
                    getParameter := Some getParameter_proxy,
                    processReplacing := Some process_replacing_proxy,
                    info := d\<rparr>,
            removeme := True\<rparr> \<and>
        callback_requests s = [] \<and> plugin_callbacks s = [] \<and>
        plugin_answers s =
          map (passthrough_event
                 ((plugin b)\<lparr>ptr3 := Some this,
                    dispatcher := Some dispatch_proxy,
                    process := Some process_proxy,
                    setParameter := Some setParameter_proxy,
                    getParameter := Some getParameter_proxy,
                    processReplacing := Some process_replacing_proxy\<rparr>)
                 (host_callback_function b)) es"
proof -
  let ?p = "(plugin b)\<lparr>ptr3 := Some this,
                    dispatcher := Some dispatch_proxy,
                    process := Some process_proxy,
                    setParameter := Some setParameter_proxy,
                    getParameter := Some getParameter_proxy,
                    processReplacing := Some process_replacing_proxy\<rparr>"
  let ?b = "b\<lparr>host_vst_dispatch := Some c1, vst_host_callback := Some c2,
                  vst_host_aeffect := Some c3, plugin := ?p, removeme := True\<rparr>"
  let ?s0 = "body_entered b (Inr c1 # Inr c2 # Inr c3 # rest) es d :: ('a, 'b, 'c) construction"
  let ?s5 = "(body_entered b rest es d :: ('a, 'b, 'c) construction)
               \<lparr>main_thread := Reading_descriptor, host_bridge := ?b\<rparr>"
  have r1: "rtranclp (construction_step this passthrough_event) ?s0 ?s5"
    by (rule main_reaches_read)
  have "\<exists>s'. rtranclp (construction_step this passthrough_event) ?s5 s' \<and>
           main_thread s' = Reading_descriptor \<and> host_bridge s' = host_bridge ?s5 \<and>
           callback_requests s' = [] \<and> callback_responses s' = [] \<and>
           descriptor_frames s' = descriptor_frames ?s5 \<and>
           plugin_callbacks s' = [] \<and> \<not> plugin_waiting s' \<and>
           plugin_descriptor s' = plugin_descriptor ?s5 \<and>
           plugin_answers s' = plugin_answers ?s5 @
             map (passthrough_event (plugin (host_bridge ?s5))
                    (host_callback_function (host_bridge ?s5))) es"
    by (rule callbacks_served) (simp_all add: body_entered_def)
  then obtain s6 where
    r2: "rtranclp (construction_step this passthrough_event) ?s5 s6"
    and f: "main_thread s6 = Reading_descriptor" "host_bridge s6 = ?b"
      "callback_requests s6 = []" "callback_responses s6 = []"
      "descriptor_frames s6 = []" "plugin_callbacks s6 = []"
      "\<not> plugin_waiting s6" "plugin_descriptor s6 = Some d"
    and a: "plugin_answers s6 = map (passthrough_event ?p (host_callback_function b)) es"
    by (auto simp: body_entered_def)
  let ?s7 = "s6\<lparr>descriptor_frames := descriptor_frames s6 @ [d], plugin_descriptor := None\<rparr>"
  let ?s8 = "?s7\<lparr>host_bridge := (host_bridge ?s7)\<lparr>plugin := (plugin (host_bridge ?s7))\<lparr>info := d\<rparr>\<rparr>,
                  descriptor_frames := [], main_thread := Constructed\<rparr>"
  have "plugin_step s6 = Some ?s7"
    using f by (simp add: plugin_step_def)
  then have 7: "construction_step this passthrough_event s6 ?s7"
    by (rule construction_step.plugin)
  have "main_step this ?s7 = Some ?s8"
    using f by (simp add: main_step_def)
  then have 8: "construction_step this passthrough_event ?s7 ?s8"
    by (rule construction_step.main)
  from r1 r2 7 8 have "rtranclp (construction_step this passthrough_event) ?s0 ?s8"
    by (meson rtranclp.rtrancl_into_rtrancl rtranclp_trans)
  moreover have "main_thread ?s8 = Constructed" by simp
  moreover have "host_bridge ?s8 =
          b\<lparr>host_vst_dispatch := Some c1, vst_host_callback := Some c2,
            vst_host_aeffect := Some c3,
            plugin := (plugin b)\<lparr>ptr3 := Some this,
                    dispatcher := Some dispatch_proxy,
                    process := Some process_proxy,
                    setParameter := Some setParameter_proxy,
                    getParameter := Some getParameter_proxy,
                    processReplacing := Some process_replacing_proxy,
                    info := d\<rparr>,
            removeme := True\<rparr>"
    using f by simp
  moreover have "callback_requests ?s8 = []" "plugin_callbacks ?s8 = []"
    using f by simp_all
  moreover have "plugin_answers ?s8 = map (passthrough_event ?p (host_callback_function b)) es"
    using a by simp
  ultimately show ?thesis by blast
qed

lemma work_left_decreases:
  assumes "construction_step this passthrough_event s s'"
  shows "work_left s' < work_left s"
  using assms
proof (cases rule: construction_step.cases)
  case main
  then show ?thesis
    by (cases "main_thread s")
       (auto simp: main_step_def work_left_def
             split: channel.splits list.splits sum.splits option.splits)
next
  case callback
  then show ?thesis
    by (auto simp: host_callback_loop_step_def work_left_def split: if_splits list.splits)
next
  case plugin
  then show ?thesis
    by (auto simp: plugin_step_def work_left_def split: if_splits list.splits option.splits)
qed

lemma callback_served_at_read:
  assumes "coherent s" and "main_thread s = Reading_descriptor"
    and "callback_requests s = e # queued"
  shows "construction_step this passthrough_event s
           (s\<lparr>callback_requests := queued,
              callback_responses := callback_responses s @
                [passthrough_event (plugin (host_bridge s))
                   (host_callback_function (host_bridge s)) e]\<rparr>)"
proof -
  from assms(1,2) have "removeme (host_bridge s)" "vst_host_callback (host_bridge s) \<noteq> None"
    by (simp_all add: coherent_def)
  with assms(3) have "host_callback_loop_step passthrough_event s =
      Some (s\<lparr>callback_requests := queued,
              callback_responses := callback_responses s @
                [passthrough_event (plugin (host_bridge s))
                   (host_callback_function (host_bridge s)) e]\<rparr>)"
    by (simp add: host_callback_loop_step_def)
  then show ?thesis by (rule construction_step.callback)
qed

subsection \<open>Calls on the bridge and the order of the construction\<close>

lemma handle_call_keeps:
  "handle_call send_event b c s = Returns (Some b', s') \<Longrightarrow> b' = b"
  by (cases c)
     (auto simp: handle_call_def dispatch_def destroy_members_def bind_outcome_Returns
           split: if_splits prod.splits)

lemma handle_calls_keeps:
  "handle_calls send_event b cs s = Returns (Some b', s') \<Longrightarrow> b' = b"
proof (induction cs arbitrary: b s)
  case Nil
  then show ?case by simp
next
  case (Cons c cs)
  from Cons.prems obtain r s1 where
    h: "handle_call send_event b c s = Returns (r, s1)"
    and k: "(case r of None \<Rightarrow> Returns (None, s1)
             | Some b'' \<Rightarrow> handle_calls send_event b'' cs s1) = Returns (Some b', s')"
    by (auto simp: bind_outcome_Returns)
  show ?case
  proof (cases r)
    case None
    with k show ?thesis by simp
  next
    case (Some b1)
    with h have "b1 = b" by (simp add: handle_call_keeps)
    with k Some Cons.IH [of b s1] show ?thesis by simp
  qed
qed

text \<open>
  Claim C2 on the code. A dispatch call with the close opcode, which is opcode 1, is not
  forwarded, but it does not return 0 on a constructed bridge: \<open>delete this\<close> destroys
  the thread object of the callback loop while its thread runs, and the process is
  aborted. This holds for every bridge a constructor call has returned; the 0 is
  returned only by a bridge whose thread was never started. With any other opcode the
  call hands opcode, index, value, data and option as they are to \<open>send_event\<close> on the
  dispatch socket and returns its result.
\<close>

theorem dispatch_close_aborts:
  "effClose = 1 \<and>
   (removeme b \<longrightarrow> dispatch send_event b effClose index val data opt s = Aborts) \<and>
   (HostBridge_ctor step reader this host_callback plugin0 w = Returns (b, w') \<longrightarrow>
      dispatch send_event b effClose index val data opt s = Aborts) \<and>
   (\<not> removeme b \<longrightarrow> dispatch send_event b effClose index val data opt s = Returns (0, None, s)) \<and>
   (opcode \<noteq> effClose \<longrightarrow>
      dispatch send_event b opcode index val data opt s =
        Returns (fst (send_event (host_vst_dispatch b) opcode index val data opt s), Some b,
                 snd (send_event (host_vst_dispatch b) opcode index val data opt s)))"
proof (intro conjI impI)
  show "effClose = 1" by (simp add: effClose_def)
next
  assume "removeme b"
  then show "dispatch send_event b effClose index val data opt s = Aborts"
    by (simp add: dispatch_def destroy_members_def)
next
  assume "HostBridge_ctor step reader this host_callback plugin0 w = Returns (b, w')"
  from HostBridge_ctor_Returns [OF this] have "removeme b" by blast
  then show "dispatch send_event b effClose index val data opt s = Aborts"
    by (simp add: dispatch_def destroy_members_def)
next
  assume "\<not> removeme b"
  then show "dispatch send_event b effClose index val data opt s = Returns (0, None, s)"
    by (simp add: dispatch_def destroy_members_def)
next
  assume "opcode \<noteq> effClose"
  then show "dispatch send_event b opcode index val data opt s =
        Returns (fst (send_event (host_vst_dispatch b) opcode index val data opt s), Some b,
                 snd (send_event (host_vst_dispatch b) opcode index val data opt s))"
    by (simp add: dispatch_def split: prod.split)
qed

theorem dispatch_close_aborts_witness:
  "dispatch (\<lambda>sock opcode index val data (opt :: nat) sent.
               (42, sent @ [(sock, opcode, index, val, data, opt)]))
     sample_bridge 1 0 0 None 0 [] = Aborts \<and>
   (\<exists>b w'. HostBridge_ctor sample_engine (\<lambda>c object. Returns object) 100 7 sample_plugin
             sample_world = Returns (b, w') \<and>
           dispatch (\<lambda>sock opcode index val data (opt :: nat) sent.
                       (42, sent @ [(sock, opcode, index, val, data, opt)]))
             b 1 0 0 None 0 [] = Aborts) \<and>
   dispatch (\<lambda>sock opcode index val data (opt :: nat) sent.
               (42, sent @ [(sock, opcode, index, val, data, opt)]))
     sample_initial_bridge 1 0 0 None 0 [] = Returns (0, None, []) \<and>
   dispatch (\<lambda>sock opcode index val data (opt :: nat) sent.
               (42, sent @ [(sock, opcode, index, val, data, opt)]))
     sample_bridge 24 2 3 (Some 16) 5 [] =
     Returns (42, Some sample_bridge, [(Some 4, 24, 2, 3, Some 16, 5)])"
proof -
  let ?se = "\<lambda>sock opcode index val data (opt :: nat) sent.
               (42 :: intptr, sent @ [(sock :: nat option, opcode :: int32, index :: int32,
                                       val :: intptr, data :: pointer, opt)])"
  let ?reader = "\<lambda>(c :: nat) (object :: nat AEffect). Returns object"
  have ne: "(24 :: int32) \<noteq> effClose" by (simp add: effClose_def)
  have d: "host_vst_dispatch sample_bridge = Some 4" "removeme sample_bridge"
    "\<not> removeme sample_initial_bridge"
    by (simp_all add: sample_bridge_def sample_initial_bridge_def)
  have "\<exists>b w'. HostBridge_ctor sample_engine ?reader 100 7 sample_plugin sample_world =
          Returns (b, w')"
    by (rule sample_construction [of ?reader]) simp
  then obtain b w' where
    c: "HostBridge_ctor sample_engine ?reader 100 7 sample_plugin sample_world = Returns (b, w')"
    by blast
  note t1 = dispatch_close_aborts
      [where send_event = ?se and b = sample_bridge and index = 0 and val = 0 and data = None
         and opt = 0 and s = "[]" and step = sample_engine and reader = ?reader and this = 100
         and host_callback = 7 and ?plugin0.0 = sample_plugin and w = sample_world
         and w' = w' and opcode = 24]
  note t2 = dispatch_close_aborts
      [where send_event = ?se and b = b and index = 0 and val = 0 and data = None
         and opt = 0 and s = "[]" and step = sample_engine and reader = ?reader and this = 100
         and host_callback = 7 and ?plugin0.0 = sample_plugin and w = sample_world
         and w' = w' and opcode = 24]
  note t3 = dispatch_close_aborts
      [where send_event = ?se and b = sample_initial_bridge and index = 0 and val = 0
         and data = None and opt = 0 and s = "[]" and step = sample_engine and reader = ?reader
         and this = 100 and host_callback = 7 and ?plugin0.0 = sample_plugin
         and w = sample_world and w' = w' and opcode = 24]
  note t4 = dispatch_close_aborts
      [where send_event = ?se and b = sample_bridge and index = 2 and val = 3
         and data = "Some 16" and opt = 5 and s = "[]" and step = sample_engine
         and reader = ?reader and this = 100 and host_callback = 7
         and ?plugin0.0 = sample_plugin and w = sample_world and w' = w' and opcode = 24]
  from t1 have e: "effClose = 1" by blast
  from t1 d have a1: "dispatch ?se sample_bridge effClose 0 0 None 0 [] = Aborts" by blast
  from t2 c have a2: "dispatch ?se b effClose 0 0 None 0 [] = Aborts" by blast
  from t3 d have a3: "dispatch ?se sample_initial_bridge effClose 0 0 None 0 [] =
                        Returns (0, None, [])"
    by blast
  from t4 ne have "dispatch ?se sample_bridge 24 2 3 (Some 16) 5 [] =
          Returns (fst (?se (host_vst_dispatch sample_bridge) 24 2 3 (Some 16) 5 []),
                   Some sample_bridge,
                   snd (?se (host_vst_dispatch sample_bridge) 24 2 3 (Some 16) 5 []))"
    by blast
  then have a4: "dispatch ?se sample_bridge 24 2 3 (Some 16) 5 [] =
          Returns (42, Some sample_bridge, [(Some 4, 24, 2, 3, Some 16, 5)])"
    by (simp add: d)
  from a1 [unfolded e] a2 [unfolded e] a3 [unfolded e] a4 c show ?thesis by blast
qed

text \<open>
  Claim C3. In every construction that completes, the thread of the callback loop is
  started before the descriptor is read from the descriptor socket, and the descriptor
  is read exactly once: among the effects of the constructor the read is the last one,
  it is preceded by the start of the loop, and there is no other read. Whenever the body
  reaches the read, the callback socket is connected and the loop has been started.
  Beside the callback thread and a plugin that issues callbacks while it initialises,
  with three connections arriving: in every state the construction can get into, the
  main thread is at the read only with the loop running; a callback that is on the
  socket while the main thread is at the read is served by a round of the loop; as long
  as the bridge is not constructed some party can take a step, every step leaves fewer
  to come, and there is a run that ends with the bridge constructed and every callback
  answered.
\<close>

theorem descriptor_read_after_callback_loop:
  "(HostBridge_ctor step reader this host_callback plugin0 w = Returns (b, w') \<longrightarrow>
     removeme b \<and>
     (\<exists>before between.
        trace w' = trace w @ before @ [Callback_loop_started] @ between @ [Descriptor_read] \<and>
        Descriptor_read \<notin> set before \<and> Descriptor_read \<notin> set between \<and>
        Callback_loop_started \<notin> set before \<and> Callback_loop_started \<notin> set between) \<and>
     (\<exists>c object. vst_host_aeffect b = Some c \<and> reader c object = Returns (plugin b))) \<and>
   (HostBridge_before_read this b0 w0 = Returns (c, b1, w1) \<longrightarrow>
     removeme b1 \<and> vst_host_callback b1 \<noteq> None \<and> vst_host_aeffect b1 = Some c \<and>
     Callback_loop_started \<in> set (drop (length (trace w0)) (trace w1)) \<and>
     Descriptor_read \<notin> set (drop (length (trace w0)) (trace w1)) \<and>
     (reader c (plugin b1) = Blocks \<longrightarrow> HostBridge_body reader this b0 w0 = Blocks)) \<and>
   (\<not> removeme b0 \<and>
    rtranclp (construction_step this passthrough_event)
      (body_entered b0 (Inr c1 # Inr c2 # Inr c3 # rest) es d) s \<longrightarrow>
     (main_thread s = Reading_descriptor \<longrightarrow>
        removeme (host_bridge s) \<and> vst_host_callback (host_bridge s) \<noteq> None) \<and>
     (main_thread s = Reading_descriptor \<and> callback_requests s = e # queued \<longrightarrow>
        construction_step this passthrough_event s
          (s\<lparr>callback_requests := queued,
             callback_responses := callback_responses s @
               [passthrough_event (plugin (host_bridge s))
                  (host_callback_function (host_bridge s)) e]\<rparr>)) \<and>
     (main_thread s \<noteq> Constructed \<longrightarrow> (\<exists>s'. construction_step this passthrough_event s s')) \<and>
     (\<forall>s'. construction_step this passthrough_event s s' \<longrightarrow> work_left s' < work_left s)) \<and>
   (\<exists>s. rtranclp (construction_step this passthrough_event)
          (body_entered b0 (Inr c1 # Inr c2 # Inr c3 # rest) es d) s \<and>
        main_thread s = Constructed \<and>
        removeme (host_bridge s) \<and>
        info (plugin (host_bridge s)) = d \<and>
        dispatcher (plugin (host_bridge s)) = Some dispatch_proxy \<and>
        callback_requests s = [] \<and> plugin_callbacks s = [] \<and>
        plugin_answers s =
          map (passthrough_event
                 ((plugin b0)\<lparr>ptr3 := Some this,
                    dispatcher := Some dispatch_proxy,
                    process := Some process_proxy,
                    setParameter := Some setParameter_proxy,
                    getParameter := Some getParameter_proxy,
                    processReplacing := Some process_replacing_proxy\<rparr>)
                 (host_callback_function b0)) es)"
proof (intro conjI impI allI)
  assume "HostBridge_ctor step reader this host_callback plugin0 w = Returns (b, w')"
  from HostBridge_ctor_Returns [OF this] obtain c1 c2 c3 p where
    r: "reader c3
             (plugin0\<lparr>ptr3 := Some this,
                dispatcher := Some dispatch_proxy,
                process := Some process_proxy,
                setParameter := Some setParameter_proxy,
                getParameter := Some getParameter_proxy,
                processReplacing := Some process_replacing_proxy\<rparr>) = Returns p"
    and b: "vst_host_aeffect b = Some c3" "plugin b = p" "removeme b"
    and t: "trace w' = trace w @
                    [Accepted Host_vst_dispatch c1, Accepted Vst_host_callback c2,
                     Accepted Vst_host_aeffect c3, Pointers_installed, Callback_loop_started,
                     Descriptor_read]"
    by blast
  let ?before = "[Accepted Host_vst_dispatch c1, Accepted Vst_host_callback c2,
                  Accepted Vst_host_aeffect c3, Pointers_installed]"
  have "trace w' = trace w @ ?before @ [Callback_loop_started] @ [] @ [Descriptor_read] \<and>
        Descriptor_read \<notin> set ?before \<and> Descriptor_read \<notin> set [] \<and>
        Callback_loop_started \<notin> set ?before \<and> Callback_loop_started \<notin> set []"
    using t by simp
  then show "\<exists>before between.
        trace w' = trace w @ before @ [Callback_loop_started] @ between @ [Descriptor_read] \<and>
        Descriptor_read \<notin> set before \<and> Descriptor_read \<notin> set between \<and>
        Callback_loop_started \<notin> set before \<and> Callback_loop_started \<notin> set between"
    by blast
  from r b show "\<exists>c object. vst_host_aeffect b = Some c \<and> reader c object = Returns (plugin b)"
    by blast
  show "removeme b" by (rule b(3))
next
  assume a: "HostBridge_before_read this b0 w0 = Returns (c, b1, w1)"
  from HostBridge_before_read_Returns [OF a] obtain c1 c2 rest where
    b1: "b1 = b0\<lparr>host_vst_dispatch := Some c1, vst_host_callback := Some c2,
                  vst_host_aeffect := Some c,
                  plugin := (plugin b0)\<lparr>ptr3 := Some this,
                    dispatcher := Some dispatch_proxy,
                    process := Some process_proxy,
                    setParameter := Some setParameter_proxy,
                    getParameter := Some getParameter_proxy,
                    processReplacing := Some process_replacing_proxy\<rparr>,
                  removeme := True\<rparr>"
    and w1: "w1 = w0\<lparr>incoming := rest,
                  trace := trace w0 @
                    [Accepted Host_vst_dispatch c1, Accepted Vst_host_callback c2,
                     Accepted Vst_host_aeffect c, Pointers_installed, Callback_loop_started]\<rparr>"
    by blast
  show "removeme b1" "vst_host_callback b1 \<noteq> None" "vst_host_aeffect b1 = Some c"
    by (simp_all add: b1)
  show "Callback_loop_started \<in> set (drop (length (trace w0)) (trace w1))"
    "Descriptor_read \<notin> set (drop (length (trace w0)) (trace w1))"
    by (simp_all add: w1)
  assume "reader c (plugin b1) = Blocks"
  then show "HostBridge_body reader this b0 w0 = Blocks"
    by (simp add: HostBridge_body_def a bind_outcome_def in_constructor_def)
next
  assume h: "\<not> removeme b0 \<and>
    rtranclp (construction_step this passthrough_event)
      (body_entered b0 (Inr c1 # Inr c2 # Inr c3 # rest) es d) s"
  then have co: "coherent s"
    by (blast intro: coherent_reachable coherent_body_entered)
  {
    assume "main_thread s = Reading_descriptor"
    with co show "removeme (host_bridge s)" "vst_host_callback (host_bridge s) \<noteq> None"
      by (simp_all add: coherent_def)
  }
  {
    assume "main_thread s = Reading_descriptor \<and> callback_requests s = e # queued"
    with co show "construction_step this passthrough_event s
          (s\<lparr>callback_requests := queued,
             callback_responses := callback_responses s @
               [passthrough_event (plugin (host_bridge s))
                  (host_callback_function (host_bridge s)) e]\<rparr>)"
      by (intro callback_served_at_read) blast+
  }
  {
    assume "main_thread s \<noteq> Constructed"
    with co show "\<exists>s'. construction_step this passthrough_event s s'"
      by (rule never_stuck)
  }
  {
    fix s' assume "construction_step this passthrough_event s s'"
    then show "work_left s' < work_left s" by (rule work_left_decreases)
  }
next
  from construction_completes [of this passthrough_event b0 c1 c2 c3 rest es d]
  obtain s where
    r: "rtranclp (construction_step this passthrough_event)
          (body_entered b0 (Inr c1 # Inr c2 # Inr c3 # rest) es d) s"
    and m: "main_thread s = Constructed"
    and hb: "host_bridge s =
          b0\<lparr>host_vst_dispatch := Some c1, vst_host_callback := Some c2,
            vst_host_aeffect := Some c3,
            plugin := (plugin b0)\<lparr>ptr3 := Some this,
                    dispatcher := Some dispatch_proxy,
                    process := Some process_proxy,
                    setParameter := Some setParameter_proxy,
                    getParameter := Some getParameter_proxy,
                    processReplacing := Some process_replacing_proxy,
                    info := d\<rparr>,
            removeme := True\<rparr>"
    and q: "callback_requests s = []" "plugin_callbacks s = []"
    and a: "plugin_answers s =
          map (passthrough_event
                 ((plugin b0)\<lparr>ptr3 := Some this,
                    dispatcher := Some dispatch_proxy,
                    process := Some process_proxy,
                    setParameter := Some setParameter_proxy,
                    getParameter := Some getParameter_proxy,
                    processReplacing := Some process_replacing_proxy\<rparr>)
                 (host_callback_function b0)) es"
    by blast
  from hb have "removeme (host_bridge s)" "info (plugin (host_bridge s)) = d"
    "dispatcher (plugin (host_bridge s)) = Some dispatch_proxy"
    by simp_all
  with r m q a show "\<exists>s. rtranclp (construction_step this passthrough_event)
          (body_entered b0 (Inr c1 # Inr c2 # Inr c3 # rest) es d) s \<and>
        main_thread s = Constructed \<and>
        removeme (host_bridge s) \<and>
        info (plugin (host_bridge s)) = d \<and>
        dispatcher (plugin (host_bridge s)) = Some dispatch_proxy \<and>
        callback_requests s = [] \<and> plugin_callbacks s = [] \<and>
        plugin_answers s =
          map (passthrough_event
                 ((plugin b0)\<lparr>ptr3 := Some this,
                    dispatcher := Some dispatch_proxy,
                    process := Some process_proxy,
                    setParameter := Some setParameter_proxy,
                    getParameter := Some getParameter_proxy,
                    processReplacing := Some process_replacing_proxy\<rparr>)
                 (host_callback_function b0)) es"
    by blast
qed

theorem descriptor_read_after_callback_loop_witness:
  "(\<exists>b w'. HostBridge_ctor sample_engine (\<lambda>c object. Returns object) 100 7 sample_plugin
            sample_world = Returns (b, w') \<and>
          removeme b \<and>
          (\<exists>before between.
             trace w' = before @ [Callback_loop_started] @ between @ [Descriptor_read] \<and>
             Descriptor_read \<notin> set before \<and> Descriptor_read \<notin> set between)) \<and>
   (\<exists>b1 w1. HostBridge_before_read 100 sample_initial_bridge sample_world =
             Returns (6, b1, w1) \<and>
          removeme b1 \<and> Callback_loop_started \<in> set (trace w1) \<and>
          Descriptor_read \<notin> set (trace w1)) \<and>
   HostBridge_body (\<lambda>c object. Blocks) 100 sample_initial_bridge sample_world = Blocks \<and>
   (\<exists>s. rtranclp (construction_step 100 (\<lambda>p host_callback e. e + host_callback))
          (body_entered sample_initial_bridge [Inr 4, Inr 5, Inr 6] [10, 20] 1447252592) s \<and>
        main_thread s = Reading_descriptor \<and> descriptor_frames s = [] \<and>
        callback_requests s = [10] \<and>
        construction_step 100 (\<lambda>p host_callback e. e + host_callback) s
          (s\<lparr>callback_requests := [], callback_responses := [17]\<rparr>)) \<and>
   (\<exists>s. rtranclp (construction_step 100 (\<lambda>p host_callback e. e + host_callback))
          (body_entered sample_initial_bridge [Inr 4, Inr 5, Inr 6] [10, 20] 1447252592) s \<and>
        main_thread s = Constructed \<and> plugin_answers s = [17, 27])"
proof -
  let ?reader = "\<lambda>(c :: nat) (object :: nat AEffect). Returns object"
  let ?blocked = "\<lambda>(c :: nat) (object :: nat AEffect). Blocks :: nat AEffect outcome"
  let ?pe = "\<lambda>(p :: nat AEffect) (host_callback :: nat) (e :: nat). e + host_callback"
  let ?start = "body_entered sample_initial_bridge [Inr 4, Inr 5, Inr 6] [10, 20] 1447252592
                  :: (nat, nat, nat) construction"
  let ?B = "sample_initial_bridge\<lparr>host_vst_dispatch := Some 4, vst_host_callback := Some 5,
                  vst_host_aeffect := Some 6,
                  plugin := (plugin sample_initial_bridge)\<lparr>ptr3 := Some 100,
                    dispatcher := Some dispatch_proxy,
                    process := Some process_proxy,
                    setParameter := Some setParameter_proxy,
                    getParameter := Some getParameter_proxy,
                    processReplacing := Some process_replacing_proxy\<rparr>,
                  removeme := True\<rparr>"
  let ?s5 = "(body_entered sample_initial_bridge [] [10, 20] 1447252592
               :: (nat, nat, nat) construction)
               \<lparr>main_thread := Reading_descriptor, host_bridge := ?B\<rparr>"
  let ?s6 = "?s5\<lparr>callback_requests := [10], plugin_callbacks := [20],
                  plugin_waiting := True\<rparr>"
  have "\<exists>b w'. HostBridge_ctor sample_engine ?reader 100 7 sample_plugin sample_world =
          Returns (b, w')"
    by (rule sample_construction [of ?reader]) simp
  then obtain b w' where
    c: "HostBridge_ctor sample_engine ?reader 100 7 sample_plugin sample_world = Returns (b, w')"
    by blast
  have "\<exists>b1 w1. HostBridge_before_read 100 sample_initial_bridge sample_world =
          Returns (6, b1, w1)"
    by (simp add: HostBridge_before_read_def accept_def sample_world_def bind_outcome_def
          in_constructor_def Let_def)
  then obtain b1 w1 where
    r: "HostBridge_before_read 100 sample_initial_bridge sample_world = Returns (6, b1, w1)"
    by blast
  have t0: "trace sample_world = []" by (simp add: sample_world_def)
  have nr: "\<not> removeme sample_initial_bridge" by (simp add: sample_initial_bridge_def)
  have reach5: "rtranclp (construction_step 100 ?pe) ?start ?s5"
    by (rule main_reaches_read)
  have "plugin_step ?s5 = Some ?s6"
    by (simp add: plugin_step_def body_entered_def)
  then have "construction_step 100 ?pe ?s5 ?s6"
    by (rule construction_step.plugin)
  with reach5 have reach6: "rtranclp (construction_step 100 ?pe) ?start ?s6"
    by (rule rtranclp.rtrancl_into_rtrancl)
  have s6: "main_thread ?s6 = Reading_descriptor" "descriptor_frames ?s6 = []"
    "callback_requests ?s6 = [10]" "callback_responses ?s6 = []"
    "host_callback_function (host_bridge ?s6) = 7"
    by (simp_all add: body_entered_def sample_initial_bridge_def)
  note t1 = descriptor_read_after_callback_loop
         [where step = sample_engine and reader = ?reader and this = 100 and host_callback = 7
            and ?plugin0.0 = sample_plugin and w = sample_world and b = b and w' = w'
            and ?b0.0 = sample_initial_bridge and ?w0.0 = sample_world and c = 6 and ?b1.0 = b1
            and ?w1.0 = w1 and passthrough_event = ?pe and ?c1.0 = 4 and ?c2.0 = 5
            and ?c3.0 = 6 and rest = "[]" and es = "[10, 20]" and d = 1447252592
            and s = ?s6 and e = 10 and queued = "[]"]
  note t2 = descriptor_read_after_callback_loop
         [where step = sample_engine and reader = ?blocked and this = 100 and host_callback = 7
            and ?plugin0.0 = sample_plugin and w = sample_world and b = b and w' = w'
            and ?b0.0 = sample_initial_bridge and ?w0.0 = sample_world and c = 6 and ?b1.0 = b1
            and ?w1.0 = w1 and passthrough_event = ?pe and ?c1.0 = 4 and ?c2.0 = 5
            and ?c3.0 = 6 and rest = "[]" and es = "[10, 20]" and d = 1447252592
            and s = ?s6 and e = 10 and queued = "[]"]
  from t1 c t0 have first:
    "removeme b \<and>
     (\<exists>before between.
        trace w' = before @ [Callback_loop_started] @ between @ [Descriptor_read] \<and>
        Descriptor_read \<notin> set before \<and> Descriptor_read \<notin> set between)"
    by auto
  from t1 r t0 have second:
    "removeme b1 \<and> Callback_loop_started \<in> set (trace w1) \<and> Descriptor_read \<notin> set (trace w1)"
    by auto
  from t2 r have third: "HostBridge_body ?blocked 100 sample_initial_bridge sample_world = Blocks"
    by blast
  from t1 nr reach6 s6(1,3) have
    "construction_step 100 ?pe ?s6
       (?s6\<lparr>callback_requests := [],
             callback_responses := callback_responses ?s6 @
               [?pe (plugin (host_bridge ?s6)) (host_callback_function (host_bridge ?s6)) 10]\<rparr>)"
    by blast
  moreover have "?s6\<lparr>callback_requests := [],
             callback_responses := callback_responses ?s6 @
               [?pe (plugin (host_bridge ?s6)) (host_callback_function (host_bridge ?s6)) 10]\<rparr> =
          ?s6\<lparr>callback_requests := [], callback_responses := [17]\<rparr>"
    by (simp add: body_entered_def sample_initial_bridge_def)
  ultimately
  have "construction_step 100 ?pe ?s6 (?s6\<lparr>callback_requests := [], callback_responses := [17]\<rparr>)"
    by (simp only:)
  with reach6 s6 have fourth:
    "\<exists>s. rtranclp (construction_step 100 ?pe) ?start s \<and>
        main_thread s = Reading_descriptor \<and> descriptor_frames s = [] \<and>
        callback_requests s = [10] \<and>
        construction_step 100 ?pe s (s\<lparr>callback_requests := [], callback_responses := [17]\<rparr>)"
    by blast
  from t1 obtain s where
    "rtranclp (construction_step 100 ?pe) ?start s" "main_thread s = Constructed"
    "plugin_answers s =
       map (?pe ((plugin sample_initial_bridge)\<lparr>ptr3 := Some 100,
                    dispatcher := Some dispatch_proxy,
                    process := Some process_proxy,
                    setParameter := Some setParameter_proxy,
                    getParameter := Some getParameter_proxy,
                    processReplacing := Some process_replacing_proxy\<rparr>)
              (host_callback_function sample_initial_bridge)) [10, 20]"
    by blast
  then have fifth:
    "\<exists>s. rtranclp (construction_step 100 ?pe) ?start s \<and>
        main_thread s = Constructed \<and> plugin_answers s = [17, 27]"
    by (auto simp: sample_initial_bridge_def)
  from c first r second third fourth fifth show ?thesis by blast
qed

text \<open>
  Claim C4. In every construction that completes, the sockets were accepted in one order:
  the dispatch socket took the first connection to arrive, the callback socket the
  second and the descriptor socket the third, and the constructor accepted nothing else.
\<close>

theorem accept_order:
  "HostBridge_ctor step reader this host_callback plugin0 w = Returns (b, w') \<longrightarrow>
     (\<exists>c1 c2 c3 later.
        take 3 (incoming w) = [Inr c1, Inr c2, Inr c3] \<and>
        host_vst_dispatch b = Some c1 \<and> vst_host_callback b = Some c2 \<and>
        vst_host_aeffect b = Some c3 \<and>
        trace w' = trace w @
          [Accepted Host_vst_dispatch c1, Accepted Vst_host_callback c2,
           Accepted Vst_host_aeffect c3] @ later \<and>
        (\<forall>ch c. Accepted ch c \<notin> set later))"
proof
  assume "HostBridge_ctor step reader this host_callback plugin0 w = Returns (b, w')"
  from HostBridge_ctor_Returns [OF this] obtain c1 c2 c3 rest where
    i: "incoming w = Inr c1 # Inr c2 # Inr c3 # rest"
    and b: "host_vst_dispatch b = Some c1" "vst_host_callback b = Some c2"
           "vst_host_aeffect b = Some c3"
    and t: "trace w' = trace w @
                    [Accepted Host_vst_dispatch c1, Accepted Vst_host_callback c2,
                     Accepted Vst_host_aeffect c3, Pointers_installed, Callback_loop_started,
                     Descriptor_read]"
    by blast
  let ?later = "[Pointers_installed, Callback_loop_started, Descriptor_read]"
  have "take 3 (incoming w) = [Inr c1, Inr c2, Inr c3]"
    using i by (simp add: numeral_3_eq_3)
  moreover have "trace w' = trace w @
          [Accepted Host_vst_dispatch c1, Accepted Vst_host_callback c2,
           Accepted Vst_host_aeffect c3] @ ?later"
    using t by simp
  moreover have "\<forall>ch c. Accepted ch c \<notin> set ?later" by simp
  ultimately show "\<exists>c1 c2 c3 later.
        take 3 (incoming w) = [Inr c1, Inr c2, Inr c3] \<and>
        host_vst_dispatch b = Some c1 \<and> vst_host_callback b = Some c2 \<and>
        vst_host_aeffect b = Some c3 \<and>
        trace w' = trace w @
          [Accepted Host_vst_dispatch c1, Accepted Vst_host_callback c2,
           Accepted Vst_host_aeffect c3] @ later \<and>
        (\<forall>ch c. Accepted ch c \<notin> set later)"
    using b by blast
qed

theorem accept_order_witness:
  "\<exists>b w'. HostBridge_ctor sample_engine (\<lambda>c object. Returns object) 100 7 sample_plugin
            sample_world = Returns (b, w') \<and>
          host_vst_dispatch b = Some 4 \<and> vst_host_callback b = Some 5 \<and>
          vst_host_aeffect b = Some 6 \<and>
          take 3 (trace w') =
            [Accepted Host_vst_dispatch 4, Accepted Vst_host_callback 5,
             Accepted Vst_host_aeffect 6]"
proof -
  let ?reader = "\<lambda>(c :: nat) (object :: nat AEffect). Returns object"
  have "\<exists>b w'. HostBridge_ctor sample_engine ?reader 100 7 sample_plugin sample_world =
          Returns (b, w')"
    by (rule sample_construction [of ?reader]) simp
  then obtain b w' where
    c: "HostBridge_ctor sample_engine ?reader 100 7 sample_plugin sample_world = Returns (b, w')"
    by blast
  have "trace sample_world = []" "incoming sample_world = [Inr 4, Inr 5, Inr 6]"
    by (simp_all add: sample_world_def)
  with accept_order [of sample_engine ?reader 100 7 sample_plugin sample_world b w'] c
  show ?thesis by (auto simp: numeral_3_eq_3)
qed

subsection \<open>The descriptor and the entry point\<close>

text \<open>
  Claim C6. The read of the descriptor leaves the five function-pointer slots and the
  back pointer of the object it fills as they are. In every construction that completes
  they are installed once, and the constructed descriptor holds the five proxy functions
  and the address of the bridge. No later call on the bridge changes the descriptor: as
  long as the bridge exists after a run of calls, it is the bridge as constructed.
\<close>

theorem descriptor_slots_installed_once:
  "(read_object receive c object = Returns object' \<longrightarrow>
      dispatcher object' = dispatcher object \<and> process object' = process object \<and>
      setParameter object' = setParameter object \<and> getParameter object' = getParameter object \<and>
      processReplacing object' = processReplacing object \<and> ptr3 object' = ptr3 object) \<and>
   (HostBridge_ctor step (read_object receive) this host_callback plugin0 w = Returns (b, w') \<longrightarrow>
      dispatcher (plugin b) = Some dispatch_proxy \<and>
      process (plugin b) = Some process_proxy \<and>
      setParameter (plugin b) = Some setParameter_proxy \<and>
      getParameter (plugin b) = Some getParameter_proxy \<and>
      processReplacing (plugin b) = Some process_replacing_proxy \<and>
      ptr3 (plugin b) = Some this \<and>
      length (filter (\<lambda>e. e = Pointers_installed) (drop (length (trace w)) (trace w'))) = 1) \<and>
   (handle_calls send_event b calls s = Returns (Some b', s') \<longrightarrow> plugin b' = plugin b)"
proof (intro conjI impI)
  assume "read_object receive c object = Returns object'"
  then obtain d where o: "object' = object\<lparr>info := d\<rparr>"
    by (auto simp: read_object_def bind_outcome_Returns)
  show "dispatcher object' = dispatcher object" "process object' = process object"
    "setParameter object' = setParameter object" "getParameter object' = getParameter object"
    "processReplacing object' = processReplacing object" "ptr3 object' = ptr3 object"
    by (simp_all add: o)
next
  assume "HostBridge_ctor step (read_object receive) this host_callback plugin0 w =
            Returns (b, w')"
  from HostBridge_ctor_Returns [OF this] obtain c1 c2 c3 p where
    r: "read_object receive c3
             (plugin0\<lparr>ptr3 := Some this,
                dispatcher := Some dispatch_proxy,
                process := Some process_proxy,
                setParameter := Some setParameter_proxy,
                getParameter := Some getParameter_proxy,
                processReplacing := Some process_replacing_proxy\<rparr>) = Returns p"
    and b: "plugin b = p"
    and t: "trace w' = trace w @
                    [Accepted Host_vst_dispatch c1, Accepted Vst_host_callback c2,
                     Accepted Vst_host_aeffect c3, Pointers_installed, Callback_loop_started,
                     Descriptor_read]"
    by blast
  from r obtain d where p: "p = plugin0\<lparr>ptr3 := Some this,
                dispatcher := Some dispatch_proxy,
                process := Some process_proxy,
                setParameter := Some setParameter_proxy,
                getParameter := Some getParameter_proxy,
                processReplacing := Some process_replacing_proxy, info := d\<rparr>"
    by (auto simp: read_object_def bind_outcome_Returns)
  show "dispatcher (plugin b) = Some dispatch_proxy" "process (plugin b) = Some process_proxy"
    "setParameter (plugin b) = Some setParameter_proxy"
    "getParameter (plugin b) = Some getParameter_proxy"
    "processReplacing (plugin b) = Some process_replacing_proxy"
    "ptr3 (plugin b) = Some this"
    by (simp_all add: b p)
  show "length (filter (\<lambda>e. e = Pointers_installed) (drop (length (trace w)) (trace w'))) = 1"
    by (simp add: t)
next
  assume "handle_calls send_event b calls s = Returns (Some b', s')"
  then have "b' = b" by (rule handle_calls_keeps)
  then show "plugin b' = plugin b" by simp
qed

theorem descriptor_slots_installed_once_witness:
  "\<exists>b w'. HostBridge_ctor sample_engine (read_object (\<lambda>c. Returns 1447252592)) 100 7
            sample_plugin sample_world = Returns (b, w') \<and>
          dispatcher (plugin b) = Some dispatch_proxy \<and>
          process (plugin b) = Some process_proxy \<and>
          setParameter (plugin b) = Some setParameter_proxy \<and>
          getParameter (plugin b) = Some getParameter_proxy \<and>
          processReplacing (plugin b) = Some process_replacing_proxy \<and>
          ptr3 (plugin b) = Some 100 \<and>
          info (plugin b) = 1447252592 \<and>
          handle_calls (\<lambda>sock opcode index val data (opt :: nat) sent.
                   (42, sent @ [(sock, opcode, index, val, data, opt)]))
                 b [Dispatch 24 2 3 None 0, Process, Get_parameter] [] =
            Returns (Some b, [(Some 4, 24, 2, 3, None, 0)])"
proof -
  let ?receive = "\<lambda>c :: nat. Returns (1447252592 :: nat)"
  let ?reader = "read_object ?receive"
  let ?se = "\<lambda>sock opcode index val data (opt :: nat) sent.
               (42 :: intptr, sent @ [(sock :: nat option, opcode :: int32, index :: int32,
                                       val :: intptr, data :: pointer, opt)])"
  let ?calls = "[Dispatch 24 2 3 None 0, Process, Get_parameter]"
  have "\<exists>b w'. HostBridge_ctor sample_engine ?reader 100 7 sample_plugin sample_world =
          Returns (b, w')"
    by (rule sample_construction [of ?reader]) (simp add: read_object_def bind_outcome_def)
  then obtain b w' where
    c: "HostBridge_ctor sample_engine ?reader 100 7 sample_plugin sample_world = Returns (b, w')"
    by blast
  from HostBridge_ctor_Returns [OF c] obtain c3 p where
    r: "?reader c3
           (sample_plugin\<lparr>ptr3 := Some 100,
              dispatcher := Some dispatch_proxy,
              process := Some process_proxy,
              setParameter := Some setParameter_proxy,
              getParameter := Some getParameter_proxy,
              processReplacing := Some process_replacing_proxy\<rparr>) = Returns p"
    and pb: "plugin b = p"
    by blast
  from r pb have i: "info (plugin b) = 1447252592"
    by (auto simp: read_object_def bind_outcome_def)
  from HostBridge_ctor_Returns [OF c] have "host_vst_dispatch b = Some 4"
    by (auto simp: sample_world_def)
  then have h: "handle_calls ?se b ?calls [] = Returns (Some b, [(Some 4, 24, 2, 3, None, 0)])"
    by (simp add: handle_call_def dispatch_def effClose_def bind_outcome_def)
  note t = descriptor_slots_installed_once
         [where receive = ?receive and c = 0 and object = sample_plugin
            and object' = "sample_plugin\<lparr>info := 1447252592\<rparr>"
            and step = sample_engine and this = 100 and host_callback = 7
            and ?plugin0.0 = sample_plugin and w = sample_world and b = b and w' = w'
            and send_event = ?se and calls = ?calls and s = "[]" and b' = b
            and s' = "[(Some 4, 24, 2, 3, None, 0)]"]
  from t c have "dispatcher (plugin b) = Some dispatch_proxy \<and>
      process (plugin b) = Some process_proxy \<and>
      setParameter (plugin b) = Some setParameter_proxy \<and>
      getParameter (plugin b) = Some getParameter_proxy \<and>
      processReplacing (plugin b) = Some process_replacing_proxy \<and>
      ptr3 (plugin b) = Some 100"
    by blast
  with c i h show ?thesis by blast
qed



section \<open>Properties of the event loop timer\<close>

lemma sint_add_milliseconds:
  assumes "0 \<le> ms" and "ms \<le> 1000" and "room_for ms t"
  shows "sint (t + milliseconds ms) = sint t + ms * 1000000"
proof -
  have lo: "- (2 ^ 63) \<le> sint t"
    using sint_ge [of t] by simp
  have m: "sint (milliseconds ms) = ms * 1000000"
  proof -
    have "- (2 ^ 63) \<le> ms * 1000000" "ms * 1000000 < 2 ^ 63"
      using assms(1,2) by simp_all
    then have "signed_take_bit (LENGTH(64) - 1) (ms * 1000000) = ms * 1000000"
      by (intro signed_take_bit_int_eq_self) simp_all
    then show ?thesis
      unfolding milliseconds_def sint_sbintrunc' .
  qed
  have "- (2 ^ 63) \<le> sint t + ms * 1000000"
    using lo assms(1) by simp
  moreover have "sint t + ms * 1000000 < 2 ^ 63"
    using assms(3) by (simp add: room_for_def)
  ultimately
  have "signed_take_bit (LENGTH(64) - 1) (sint t + ms * 1000000) = sint t + ms * 1000000"
    by (intro signed_take_bit_int_eq_self) simp_all
  then show ?thesis
    unfolding sint_word_add m .
qed

lemma sint_std_max: "sint (std_max a b) = max (sint a) (sint b)"
  by (simp add: std_max_def max_def)

lemma interval_value: "(1000 :: int) div 60 = 16"
  by simp

lemma sint_async_handle_events:
  assumes "room_for (1000 div 60) (events_timer_expiry ctx)" and "room_for 5 now"
  shows "sint (events_timer_expiry (async_handle_events now ctx)) =
           max (sint (events_timer_expiry ctx) + (1000 div 60) * 1000000)
               (sint now + 5 * 1000000)"
proof -
  have a: "sint (events_timer_expiry ctx + event_loop_interval) =
             sint (events_timer_expiry ctx) + (1000 div 60) * 1000000"
    unfolding event_loop_interval_def
    using assms(1) by (intro sint_add_milliseconds) simp_all
  have b: "sint (now + milliseconds 5) = sint now + 5 * 1000000"
    using assms(2) by (intro sint_add_milliseconds) simp_all
  have "events_timer_expiry (async_handle_events now ctx) =
          std_max (events_timer_expiry ctx + event_loop_interval) (now + milliseconds 5)"
    by (simp add: async_handle_events_def)
  then show ?thesis
    by (simp only: sint_std_max a b)
qed

lemma event_loop_first: "event_loop ctx ticks ! 0 = ctx"
  by (induction ctx ticks rule: event_loop.induct) simp_all

lemma event_loop_step:
  "\<forall>t \<in> set ticks. t \<noteq> Failed \<Longrightarrow> i < length ticks \<Longrightarrow> ticks ! i = Handled now \<Longrightarrow>
   event_loop ctx ticks ! Suc i = async_handle_events now (event_loop ctx ticks ! i)"
proof (induction ctx ticks arbitrary: i rule: event_loop.induct)
  case (1 ctx)
  then show ?case by simp
next
  case (2 ctx ticks)
  then show ?case by simp
next
  case (3 ctx t ticks)
  show ?case
  proof (cases i)
    case 0
    with "3.prems" show ?thesis
      by (simp add: event_loop_first)
  next
    case (Suc j)
    with "3.prems" "3.IH" [of j] show ?thesis by simp
  qed
qed

text \<open>
  Claim C10. The timer is rescheduled to the later of the previous deadline plus the
  interval of \<open>1000 / 60\<close> milliseconds and the current time plus five milliseconds,
  wherever these two sums stay within the 64-bit range of the clock. Along every run of
  ticks each expiry arises from the one before in this way: it is the previous deadline
  plus the interval whenever that lies at least five milliseconds ahead of now, and
  never less than five milliseconds ahead of now.
\<close>

theorem timer_rescheduling:
  "(room_for (1000 div 60) (events_timer_expiry ctx) \<and> room_for 5 now \<longrightarrow>
      sint (events_timer_expiry (async_handle_events now ctx)) =
        max (sint (events_timer_expiry ctx) + (1000 div 60) * 1000000)
            (sint now + 5 * 1000000) \<and>
      (sint now + 5 * 1000000 \<le> sint (events_timer_expiry ctx) + (1000 div 60) * 1000000 \<longrightarrow>
         events_timer_expiry (async_handle_events now ctx) =
           events_timer_expiry ctx + event_loop_interval) \<and>
      (sint (events_timer_expiry ctx) + (1000 div 60) * 1000000 < sint now + 5 * 1000000 \<longrightarrow>
         events_timer_expiry (async_handle_events now ctx) = now + milliseconds 5) \<and>
      sint now + 5 * 1000000 \<le> sint (events_timer_expiry (async_handle_events now ctx))) \<and>
   ((\<forall>t \<in> set ticks. t \<noteq> Failed) \<and> i < length ticks \<and> ticks ! i = Handled now' \<and>
    room_for (1000 div 60) (events_timer_expiry (event_loop ctx ticks ! i)) \<and> room_for 5 now' \<longrightarrow>
      sint (events_timer_expiry (event_loop ctx ticks ! Suc i)) =
        max (sint (events_timer_expiry (event_loop ctx ticks ! i)) + (1000 div 60) * 1000000)
            (sint now' + 5 * 1000000))"
proof (intro conjI impI)
  assume r: "room_for (1000 div 60) (events_timer_expiry ctx) \<and> room_for 5 now"
  then have a: "sint (events_timer_expiry ctx + event_loop_interval) =
             sint (events_timer_expiry ctx) + (1000 div 60) * 1000000"
    unfolding event_loop_interval_def
    by (intro sint_add_milliseconds) simp_all
  from r have b: "sint (now + milliseconds 5) = sint now + 5 * 1000000"
    by (intro sint_add_milliseconds) simp_all
  have e: "events_timer_expiry (async_handle_events now ctx) =
          std_max (events_timer_expiry ctx + event_loop_interval) (now + milliseconds 5)"
    by (simp add: async_handle_events_def)
  from r show m: "sint (events_timer_expiry (async_handle_events now ctx)) =
        max (sint (events_timer_expiry ctx) + (1000 div 60) * 1000000)
            (sint now + 5 * 1000000)"
    by (intro sint_async_handle_events) simp_all
  then show "sint now + 5 * 1000000 \<le> sint (events_timer_expiry (async_handle_events now ctx))"
    by (simp only: max.cobounded2)
  {
    assume "sint now + 5 * 1000000 \<le> sint (events_timer_expiry ctx) + (1000 div 60) * 1000000"
    then have "\<not> sint (events_timer_expiry ctx + event_loop_interval) < sint (now + milliseconds 5)"
      by (simp only: a b not_less)
    then show "events_timer_expiry (async_handle_events now ctx) =
           events_timer_expiry ctx + event_loop_interval"
      by (simp only: e std_max_def if_False)
  }
  {
    assume "sint (events_timer_expiry ctx) + (1000 div 60) * 1000000 < sint now + 5 * 1000000"
    then have "sint (events_timer_expiry ctx + event_loop_interval) < sint (now + milliseconds 5)"
      by (simp only: a b)
    then show "events_timer_expiry (async_handle_events now ctx) = now + milliseconds 5"
      by (simp only: e std_max_def if_True)
  }
next
  assume h: "(\<forall>t \<in> set ticks. t \<noteq> Failed) \<and> i < length ticks \<and> ticks ! i = Handled now' \<and>
    room_for (1000 div 60) (events_timer_expiry (event_loop ctx ticks ! i)) \<and> room_for 5 now'"
  then have "event_loop ctx ticks ! Suc i = async_handle_events now' (event_loop ctx ticks ! i)"
    by (intro event_loop_step) blast+
  moreover from h have
    "sint (events_timer_expiry (async_handle_events now' (event_loop ctx ticks ! i))) =
        max (sint (events_timer_expiry (event_loop ctx ticks ! i)) + (1000 div 60) * 1000000)
            (sint now' + 5 * 1000000)"
    by (intro sint_async_handle_events) blast+
  ultimately show "sint (events_timer_expiry (event_loop ctx ticks ! Suc i)) =
        max (sint (events_timer_expiry (event_loop ctx ticks ! i)) + (1000 div 60) * 1000000)
            (sint now' + 5 * 1000000)"
    by (simp only:)
qed

theorem timer_rescheduling_witness:
  "map events_timer_expiry
     (event_loop \<lparr>events_timer_expiry = 0\<rparr> [Handled 1000000, Handled 40000000]) =
     [0, 16000000, 45000000]"
proof -
  let ?ctx = "\<lparr>events_timer_expiry = 0 :: 64 word\<rparr>"
  let ?ticks = "[Handled 1000000, Handled 40000000]"
  have all: "\<forall>t \<in> set ?ticks. t \<noteq> Failed" by simp
  have room: "room_for (1000 div 60) 0" "room_for 5 1000000" "room_for (1000 div 60) 16000000"
    "room_for 5 40000000"
    by (simp_all add: room_for_def)
  have e0: "event_loop ?ctx ?ticks ! 0 = ?ctx" by simp
  have s: "event_loop ?ctx ?ticks ! Suc 0 = async_handle_events 1000000 ?ctx"
    by simp
  have i: "event_loop_interval = 16000000" "milliseconds 5 = 5000000"
    by (simp_all add: event_loop_interval_def milliseconds_def)
  have "events_timer_expiry (async_handle_events 1000000 ?ctx) =
          events_timer_expiry ?ctx + event_loop_interval"
    using timer_rescheduling [of ?ctx 1000000 ?ticks 0 1000000] room by simp
  then have e1: "events_timer_expiry (event_loop ?ctx ?ticks ! Suc 0) = 16000000"
    by (simp add: i)
  have s2: "event_loop ?ctx ?ticks ! Suc (Suc 0) =
          async_handle_events 40000000 (event_loop ?ctx ?ticks ! Suc 0)"
    by simp
  have "events_timer_expiry (async_handle_events 40000000 (event_loop ?ctx ?ticks ! Suc 0)) =
          40000000 + milliseconds 5"
    using timer_rescheduling [of "event_loop ?ctx ?ticks ! Suc 0" 40000000 ?ticks 0 1000000]
          room e1
    by simp
  then have e2: "events_timer_expiry (event_loop ?ctx ?ticks ! Suc (Suc 0)) = 45000000"
    by (simp only: s2 i) simp
  have len: "length (event_loop ?ctx ?ticks) = 3" by simp
  have "map events_timer_expiry (event_loop ?ctx ?ticks) =
          [events_timer_expiry (event_loop ?ctx ?ticks ! 0),
           events_timer_expiry (event_loop ?ctx ?ticks ! Suc 0),
           events_timer_expiry (event_loop ?ctx ?ticks ! Suc (Suc 0))]"
    by simp
  with e1 e2 show ?thesis by (simp only: e0) simp
qed

text \<open>
  Beyond the range the sum wraps around: with the expiry ten milliseconds below the top
  of the range the deadline plus the interval is negative, and the timer is set to five
  milliseconds after now.
\<close>

lemma async_handle_events_wraps:
  "events_timer_expiry
     (async_handle_events 0 \<lparr>events_timer_expiry = 0x7FFFFFFFFFFFFFFF - 10000000\<rparr>) = 5000000"
  by (simp add: async_handle_events_def std_max_def event_loop_interval_def milliseconds_def)

end
